theory Spec2Isabelle
  imports Main
begin

section \<open>The agent service: tool registry and conversation driver\<close>

text \<open>
  A shallow embedding of \<^verbatim>\<open>agent-service/app.py\<close>: the class \<^verbatim>\<open>MCPClient\<close>
  (\<^verbatim>\<open>fetch_all_tools\<close>, \<^verbatim>\<open>execute_tool\<close>) and the loop of \<^verbatim>\<open>BedrockAgent.run\<close>.
  The tool servers and the model backend are outside the program. They are a
  parameter of every definition: a record of three functions over a state of the
  outside world, which each call reads and advances. Every call the program makes is
  also appended, with its reply, to a trace, so that "no request is issued" and
  "the backend replied with a tool-use stop" are statements about that trace.
  Within one call the two \<^verbatim>\<open>await\<close> chains run one after the other, as they do in
  the source, and the functions below are one call run from its first line to its
  return. Calls of \<^verbatim>\<open>fetch_all_tools\<close> that overlap on the shared client are the
  subject of a process model of their own, with one step for each stretch of code
  between two awaits.

  What is taken from outside as it is typed: the reply of the backend follows the
  shape of the Converse API (a tool-use block has a name, an input and an id; a
  \<^verbatim>\<open>ClientError\<close> carries a message), \<^verbatim>\<open>max_turns\<close> is an int, and a tool name
  passed to \<^verbatim>\<open>execute_tool\<close> is a str. The payloads of the tool servers are
  arbitrary JSON, since \<^verbatim>\<open>fetch_all_tools\<close> and \<^verbatim>\<open>execute_tool\<close> guard against
  them. What \<^verbatim>\<open>print\<close> writes is not part of the state.
\<close>

subsection \<open>JSON values as Python reads them\<close>

text \<open>
  What \<^verbatim>\<open>response.json()\<close> returns: \<^verbatim>\<open>None\<close>, a bool, an int, a str, a list or a
  dict with string keys (each key once), in insertion order. Floats are left out.
\<close>

datatype json =
    JNull
  | JBool bool
  | JNum int
  | JStr string
  | JArr "json list"
  | JObj "(string \<times> json) list"

text \<open>\<^verbatim>\<open>d.get(k, default)\<close> on a dict.\<close>

definition dict_get :: "(string \<times> json) list \<Rightarrow> string \<Rightarrow> json \<Rightarrow> json" where
  "dict_get kvs k dflt = (case map_of kvs k of None \<Rightarrow> dflt | Some v \<Rightarrow> v)"

text \<open>
  \<^verbatim>\<open>for x in v\<close>: a list yields its elements, a str its characters, a dict its keys;
  anything else raises TypeError (\<open>None\<close> here).
\<close>

fun py_iter :: "json \<Rightarrow> json list option" where
  "py_iter (JArr xs) = Some xs"
| "py_iter (JStr s) = Some (map (\<lambda>c. JStr [c]) s)"
| "py_iter (JObj kvs) = Some (map (\<lambda>kv. JStr (fst kv)) kvs)"
| "py_iter JNull = None"
| "py_iter (JBool b) = None"
| "py_iter (JNum n) = None"

text \<open>
  A value used as a dict key: lists and dicts are unhashable (TypeError), and
  \<^verbatim>\<open>True\<close> and \<^verbatim>\<open>False\<close> are the keys \<^verbatim>\<open>1\<close> and \<^verbatim>\<open>0\<close>.
\<close>

fun hashable :: "json \<Rightarrow> bool" where
  "hashable (JArr xs) = False"
| "hashable (JObj kvs) = False"
| "hashable v = True"

fun dict_key :: "json \<Rightarrow> json" where
  "dict_key (JBool b) = JNum (if b then 1 else 0)"
| "dict_key v = v"

text \<open>The name of a value's type, as it appears in the text of an AttributeError.\<close>

fun type_name :: "json \<Rightarrow> string" where
  "type_name JNull = ''NoneType''"
| "type_name (JBool b) = ''bool''"
| "type_name (JNum n) = ''int''"
| "type_name (JStr s) = ''str''"
| "type_name (JArr xs) = ''list''"
| "type_name (JObj kvs) = ''dict''"

subsection \<open>\<^verbatim>\<open>str\<close> of an int and \<^verbatim>\<open>json.dumps\<close>\<close>

definition digit :: "nat \<Rightarrow> char" where
  "digit d = ''0123456789abcdef'' ! d"

function str_nat :: "nat \<Rightarrow> string" where
  "str_nat n = (if n < 10 then [digit n] else str_nat (n div 10) @ [digit (n mod 10)])"
  by pat_completeness auto
termination
  by (relation "measure id") auto

definition str_int :: "int \<Rightarrow> string" where
  "str_int i = (if i < 0 then CHR ''-'' # str_nat (nat (- i)) else str_nat (nat i))"

text \<open>
  \<^verbatim>\<open>json.dumps\<close> with its defaults (\<^verbatim>\<open>ensure_ascii=True\<close>, separators \<^verbatim>\<open>", "\<close> and
  \<^verbatim>\<open>": "\<close>). Inside a string the quote and the backslash are escaped, the five
  control characters with a short form use it, and every other character outside
  space..tilde is written \<^verbatim>\<open>\u00xx\<close>. A \<^typ>\<open>char\<close> is a code point below 256.
\<close>

definition escape_char :: "char \<Rightarrow> string" where
  "escape_char c =
     (if c = CHR 0x22 then [CHR 0x5C, CHR 0x22]
      else if c = CHR 0x5C then [CHR 0x5C, CHR 0x5C]
      else if c = CHR 0x0A then [CHR 0x5C, CHR ''n'']
      else if c = CHR 0x0D then [CHR 0x5C, CHR ''r'']
      else if c = CHR 0x09 then [CHR 0x5C, CHR ''t'']
      else if c = CHR 0x08 then [CHR 0x5C, CHR ''b'']
      else if c = CHR 0x0C then [CHR 0x5C, CHR ''f'']
      else if (32::nat) \<le> of_char c \<and> (of_char c :: nat) \<le> 126 then [c]
      else [CHR 0x5C, CHR ''u'', CHR ''0'', CHR ''0'',
            digit ((of_char c :: nat) div 16), digit ((of_char c :: nat) mod 16)])"

definition dumps_str :: "string \<Rightarrow> string" where
  "dumps_str s = [CHR 0x22] @ concat (map escape_char s) @ [CHR 0x22]"

fun join :: "string \<Rightarrow> string list \<Rightarrow> string" where
  "join sep [] = []"
| "join sep [x] = x"
| "join sep (x # y # ys) = x @ sep @ join sep (y # ys)"

fun dumps :: "json \<Rightarrow> string" where
  "dumps JNull = ''null''"
| "dumps (JBool b) = (if b then ''true'' else ''false'')"
| "dumps (JNum n) = str_int n"
| "dumps (JStr s) = dumps_str s"
| "dumps (JArr xs) = ''['' @ join '', '' (map dumps xs) @ '']''"
| "dumps (JObj kvs) =
     ''{'' @ join '', '' (map (\<lambda>kv. dumps_str (fst kv) @ '': '' @ dumps (snd kv)) kvs) @ ''}''"

subsection \<open>The outside world\<close>

text \<open>
  An HTTP reply with the three things the source reads from it: the status code,
  the body as text (\<^verbatim>\<open>response.text\<close>), and what \<^verbatim>\<open>response.json()\<close> gives (\<open>Inl\<close> the text of the
  exception when the body does not parse). A request that raises instead of
  answering is \<open>Inl\<close> the text of the exception.
\<close>

record http_response =
  status_code :: int
  body_text :: string
  body_json :: "string + json"

type_synonym http_result = "string + http_response"

text \<open>
  A tool definition in the backend's format:
  \<^verbatim>\<open>{"toolSpec": {"name": .., "description": .., "inputSchema": {"json": ..}}}\<close>.
\<close>

record bedrock_tool =
  name :: json
  description :: json
  inputSchema :: json

text \<open>
  The \<^verbatim>\<open>toolConfig\<close> argument; its \<^verbatim>\<open>toolChoice\<close> is always \<^verbatim>\<open>{"auto": {}}\<close>.
\<close>

datatype tool_config = ToolConfig "bedrock_tool list"

text \<open>
  A content block is a union: text, a tool-use request (name, input, toolUseId), a
  tool result (toolUseId and the text of its one content block), or any other kind
  of block (an image, a document), which has neither a \<^verbatim>\<open>text\<close> nor a
  \<^verbatim>\<open>toolUse\<close> key.
\<close>

datatype content_block =
    Text string
  | ToolUse string json string
  | ToolResult string string
  | OtherBlock

text \<open>A message; \<open>content\<close> is \<open>None\<close> when the key is absent.\<close>

record message =
  role :: string
  content :: "content_block list option"

text \<open>
  What \<^verbatim>\<open>bedrock.converse\<close> does: it returns a response, read as
  \<^verbatim>\<open>response.get("stopReason")\<close> and \<^verbatim>\<open>response["output"]["message"]\<close>, or it raises
  a \<^verbatim>\<open>ClientError\<close> (with its \<^verbatim>\<open>e.response['Error']['Message']\<close>), or anything in
  the \<^verbatim>\<open>try\<close> raises another exception (with its \<^verbatim>\<open>str(e)\<close>): a transport
  error, or a response without \<^verbatim>\<open>output.message\<close>.
\<close>

datatype converse_result =
    Response "string option" message
  | ClientError string
  | OtherException string

record 'w env =
  http_get :: "string \<Rightarrow> 'w \<Rightarrow> http_result \<times> 'w"
  http_post :: "string \<Rightarrow> json \<Rightarrow> 'w \<Rightarrow> http_result \<times> 'w"
  converse :: "string \<Rightarrow> message list \<Rightarrow> tool_config option \<Rightarrow> 'w \<Rightarrow> converse_result \<times> 'w"

text \<open>The trace of the calls made so far, each with its reply.\<close>

datatype event =
    Get string http_result
  | Post string json http_result
  | Converse string "message list" "tool_config option" converse_result

record 'w sys =
  world :: 'w
  trace :: "event list"

definition client_get :: "'w env \<Rightarrow> string \<Rightarrow> 'w sys \<Rightarrow> http_result \<times> 'w sys" where
  "client_get e url s =
     (case http_get e url (world s) of
        (r, w) \<Rightarrow> (r, \<lparr>world = w, trace = trace s @ [Get url r]\<rparr>))"

definition client_post :: "'w env \<Rightarrow> string \<Rightarrow> json \<Rightarrow> 'w sys \<Rightarrow> http_result \<times> 'w sys" where
  "client_post e url body s =
     (case http_post e url body (world s) of
        (r, w) \<Rightarrow> (r, \<lparr>world = w, trace = trace s @ [Post url body r]\<rparr>))"

definition bedrock_converse ::
  "'w env \<Rightarrow> string \<Rightarrow> message list \<Rightarrow> tool_config option \<Rightarrow> 'w sys \<Rightarrow> converse_result \<times> 'w sys" where
  "bedrock_converse e modelId msgs cfg s =
     (case converse e modelId msgs cfg (world s) of
        (r, w) \<Rightarrow> (r, \<lparr>world = w, trace = trace s @ [Converse modelId msgs cfg r]\<rparr>))"

fun is_get :: "event \<Rightarrow> bool" where
  "is_get (Get url r) = True"
| "is_get ev = False"

subsection \<open>\<^verbatim>\<open>MCPClient\<close>\<close>

text \<open>\<^verbatim>\<open>MCP_SERVERS\<close>: the two named endpoints, in the order of the dict.\<close>

definition MCP_SERVERS :: "string \<Rightarrow> string \<Rightarrow> (string \<times> string) list" where
  "MCP_SERVERS MCP_FILESYSTEM_URL MCP_CALCULATOR_URL =
     [(''filesystem'', MCP_FILESYSTEM_URL), (''calculator'', MCP_CALCULATOR_URL)]"

record MCPClient =
  tools_cache :: "bedrock_tool list option"
  tool_to_server :: "json \<Rightarrow> string option"

definition MCPClient_init :: MCPClient where
  "MCPClient_init = \<lparr>tools_cache = None, tool_to_server = (\<lambda>k. None)\<rparr>"

definition default_schema :: json where
  "default_schema =
     JObj [(''type'', JStr ''object''), (''properties'', JObj []), (''required'', JArr [])]"

text \<open>
  The inner loop of \<^verbatim>\<open>fetch_all_tools\<close>, over the tools of one endpoint. It stops
  at the first tool that raises: a tool that is not a dict or has no \<^verbatim>\<open>name\<close>
  raises before anything is appended; a tool whose name is unhashable raises at the
  assignment to \<^verbatim>\<open>tool_to_server\<close>, after it was appended to \<^verbatim>\<open>all_tools\<close>. The
  bool says whether the loop ran to its end.
\<close>

fun convert_tools ::
  "string \<Rightarrow> json list \<Rightarrow> bedrock_tool list \<Rightarrow> (json \<Rightarrow> string option)
     \<Rightarrow> bool \<times> bedrock_tool list \<times> (json \<Rightarrow> string option)" where
  "convert_tools server_url [] all_tools t2s = (True, all_tools, t2s)"
| "convert_tools server_url (tool # rest) all_tools t2s =
     (case tool of
        JObj kvs \<Rightarrow>
          (case map_of kvs ''name'' of
             None \<Rightarrow> (False, all_tools, t2s)
           | Some nm \<Rightarrow>
               (let bedrock_tool = \<lparr>name = nm,
                                    description = dict_get kvs ''description'' (JStr []),
                                    inputSchema = dict_get kvs ''inputSchema'' default_schema\<rparr>;
                    all_tools' = all_tools @ [bedrock_tool]
                in if hashable nm
                   then convert_tools server_url rest all_tools' (t2s(dict_key nm \<mapsto> server_url))
                   else (False, all_tools', t2s)))
      | _ \<Rightarrow> (False, all_tools, t2s))"

text \<open>
  The body of the \<^verbatim>\<open>try\<close> for one endpoint, given the outcome of the GET. The bool
  is False when the \<^verbatim>\<open>except\<close> branch is taken or the status is not 200.
\<close>

definition read_tools ::
  "string \<Rightarrow> http_result \<Rightarrow> bedrock_tool list \<Rightarrow> (json \<Rightarrow> string option)
     \<Rightarrow> bool \<times> bedrock_tool list \<times> (json \<Rightarrow> string option)" where
  "read_tools server_url r all_tools t2s =
     (case r of
        Inl exc \<Rightarrow> (False, all_tools, t2s)
      | Inr response \<Rightarrow>
          if status_code response = 200 then
            (case body_json response of
               Inl exc \<Rightarrow> (False, all_tools, t2s)
             | Inr tools_data \<Rightarrow>
                 (case tools_data of
                    JObj kvs \<Rightarrow>
                      (case py_iter (dict_get kvs ''tools'' (JArr [])) of
                         None \<Rightarrow> (False, all_tools, t2s)
                       | Some tools \<Rightarrow> convert_tools server_url tools all_tools t2s)
                  | _ \<Rightarrow> (False, all_tools, t2s)))
          else (False, all_tools, t2s))"

text \<open>The loop over \<^verbatim>\<open>MCP_SERVERS.items()\<close>: a failing endpoint is skipped.\<close>

fun fetch_servers ::
  "'w env \<Rightarrow> (string \<times> string) list \<Rightarrow> bedrock_tool list \<Rightarrow> (json \<Rightarrow> string option) \<Rightarrow> 'w sys
     \<Rightarrow> bedrock_tool list \<times> (json \<Rightarrow> string option) \<times> 'w sys" where
  "fetch_servers e [] all_tools t2s s = (all_tools, t2s, s)"
| "fetch_servers e ((server_name, server_url) # rest) all_tools t2s s =
     (case client_get e (server_url @ ''/tools'') s of
        (r, s') \<Rightarrow>
          (case read_tools server_url r all_tools t2s of
             (ok, all_tools', t2s') \<Rightarrow> fetch_servers e rest all_tools' t2s' s'))"

definition fetch_all_tools ::
  "'w env \<Rightarrow> (string \<times> string) list \<Rightarrow> MCPClient \<times> 'w sys
     \<Rightarrow> bedrock_tool list \<times> MCPClient \<times> 'w sys" where
  "fetch_all_tools e servers cs =
     (case cs of (self, s) \<Rightarrow>
        (case tools_cache self of
           Some cached \<Rightarrow> (cached, self, s)
         | None \<Rightarrow>
             (case fetch_servers e servers [] (tool_to_server self) s of
                (all_tools, t2s, s') \<Rightarrow>
                  (all_tools, \<lparr>tools_cache = Some all_tools, tool_to_server = t2s\<rparr>, s'))))"

text \<open>
  \<^verbatim>\<open>execute_tool\<close>. \<^verbatim>\<open>if not server_url\<close> is taken for a missing name and for
  an empty URL. Every exception inside the \<^verbatim>\<open>try\<close> becomes an error payload.
\<close>

definition not_found :: "string \<Rightarrow> string" where
  "not_found tool_name = dumps (JObj [(''error'', JStr (''Tool '' @ tool_name @ '' not found''))])"

definition execution_error :: "string \<Rightarrow> string" where
  "execution_error exc = dumps (JObj [(''error'', JStr (''Tool execution error: '' @ exc))])"

definition no_attribute_get :: "json \<Rightarrow> string" where
  "no_attribute_get v =
     [CHR 0x27] @ type_name v @ [CHR 0x27] @ '' object has no attribute ''
       @ [CHR 0x27] @ ''get'' @ [CHR 0x27]"

definition execute_tool ::
  "'w env \<Rightarrow> MCPClient \<Rightarrow> string \<Rightarrow> json \<Rightarrow> 'w sys \<Rightarrow> string \<times> 'w sys" where
  "execute_tool e self tool_name tool_input s =
     (case tool_to_server self (JStr tool_name) of
        None \<Rightarrow> (not_found tool_name, s)
      | Some server_url \<Rightarrow>
          if server_url = [] then (not_found tool_name, s)
          else
            (case client_post e (server_url @ ''/execute'')
                    (JObj [(''tool'', JStr tool_name), (''arguments'', tool_input)]) s of
               (r, s') \<Rightarrow>
                 (case r of
                    Inl exc \<Rightarrow> (execution_error exc, s')
                  | Inr response \<Rightarrow>
                      if status_code response = 200 then
                        (case body_json response of
                           Inl exc \<Rightarrow> (execution_error exc, s')
                         | Inr result \<Rightarrow>
                             (case result of
                                JObj kvs \<Rightarrow> (dumps (dict_get kvs ''result'' result), s')
                              | _ \<Rightarrow> (execution_error (no_attribute_get result), s')))
                      else
                        (dumps (JObj [(''error'', JStr (''Tool execution failed: ''
                                          @ str_int (status_code response))),
                                      (''details'', JStr (body_text response))]), s'))))"

subsection \<open>\<^verbatim>\<open>BedrockAgent.run\<close>\<close>

text \<open>An entry of \<^verbatim>\<open>tool_calls_log\<close> and the \<^verbatim>\<open>AgentResponse\<close> that \<^verbatim>\<open>run\<close> returns.\<close>

record tool_call =
  tool :: string
  input :: json
  tool_use_id :: string

record AgentResponse =
  response :: string
  turns :: int
  tool_calls :: "tool_call list"

text \<open>
  The \<^verbatim>\<open>return\<close> statement that ended the run; the source has no such tag, it is
  the position of the \<^verbatim>\<open>return\<close> in \<^verbatim>\<open>run\<close>.
\<close>

datatype outcome = Completed | Truncated | Unrecognized | Aborted | Exhausted

text \<open>
  What a run leaves behind: the response, the \<^verbatim>\<open>return\<close> taken, the local list
  \<^verbatim>\<open>messages\<close> as it is at the return, and the outside world with the trace.
\<close>

record 'w run_result =
  answer :: AgentResponse
  outcome :: outcome
  history :: "message list"
  final :: "'w sys"

text \<open>
  The local variables of the loop: \<^verbatim>\<open>messages\<close>, \<^verbatim>\<open>tool_calls_log\<close> and
  \<^verbatim>\<open>turns\<close> (here \<open>cur_turns\<close>), with the outside world.
\<close>

record 'w locals =
  messages :: "message list"
  tool_calls_log :: "tool_call list"
  cur_turns :: int
  io :: "'w sys"

definition get_content :: "message \<Rightarrow> content_block list" where
  "get_content m = (case content m of None \<Rightarrow> [] | Some cs \<Rightarrow> cs)"

text \<open>The \<^verbatim>\<open>end_turn\<close> branch: \<^verbatim>\<open>text_content += content["text"]\<close> for each text block.\<close>

fun extract_text :: "content_block list \<Rightarrow> string \<Rightarrow> string" where
  "extract_text [] text_content = text_content"
| "extract_text (Text t # rest) text_content = extract_text rest (text_content @ t)"
| "extract_text (c # rest) text_content = extract_text rest text_content"

text \<open>
  The \<^verbatim>\<open>tool_use\<close> branch: for each \<^verbatim>\<open>toolUse\<close> block, log the call, execute the
  tool, append the result block.
\<close>

fun run_tools ::
  "'w env \<Rightarrow> MCPClient \<Rightarrow> content_block list \<Rightarrow> tool_call list \<Rightarrow> content_block list \<Rightarrow> 'w sys
     \<Rightarrow> tool_call list \<times> content_block list \<times> 'w sys" where
  "run_tools e self [] log tool_results s = (log, tool_results, s)"
| "run_tools e self (ToolUse tool_name tool_input use_id # rest) log tool_results s =
     (let log' = log @ [\<lparr>tool = tool_name, input = tool_input, tool_use_id = use_id\<rparr>]
      in case execute_tool e self tool_name tool_input s of
           (result, s') \<Rightarrow>
             run_tools e self rest log' (tool_results @ [ToolResult use_id result]) s')"
| "run_tools e self (c # rest) log tool_results s = run_tools e self rest log tool_results s"

definition finish :: "outcome \<Rightarrow> string \<Rightarrow> int \<Rightarrow> tool_call list \<Rightarrow> message list \<Rightarrow> 'w sys \<Rightarrow> 'w run_result" where
  "finish oc txt n log msgs s =
     \<lparr>answer = \<lparr>response = txt, turns = n, tool_calls = log\<rparr>,
      outcome = oc, history = msgs, final = s\<rparr>"

definition str_opt :: "string option \<Rightarrow> string" where
  "str_opt v = (case v of None \<Rightarrow> ''None'' | Some s \<Rightarrow> s)"

text \<open>
  The argument \<^verbatim>\<open>toolConfig\<close> of the backend call: \<^verbatim>\<open>{...} if tools else None\<close>.
\<close>

definition toolConfig :: "bedrock_tool list \<Rightarrow> tool_config option" where
  "toolConfig tools = (if tools = [] then None else Some (ToolConfig tools))"

text \<open>
  One pass through the body of the \<^verbatim>\<open>while\<close> loop: \<open>Inl\<close> is a \<^verbatim>\<open>return\<close>,
  \<open>Inr\<close> the local variables with which the loop goes on.
\<close>

definition turn ::
  "'w env \<Rightarrow> MCPClient \<Rightarrow> string \<Rightarrow> bedrock_tool list \<Rightarrow> 'w locals \<Rightarrow> 'w run_result + 'w locals" where
  "turn e self modelId tools st =
     (let turns' = cur_turns st + 1 in
      case bedrock_converse e modelId (messages st) (toolConfig tools) (io st) of
        (r, s') \<Rightarrow>
          (case r of
             ClientError msg \<Rightarrow>
               Inl (finish Aborted (''Bedrock API error: '' @ msg) turns'
                      (tool_calls_log st) (messages st) s')
           | OtherException msg \<Rightarrow>
               Inl (finish Aborted (''Agent error: '' @ msg) turns'
                      (tool_calls_log st) (messages st) s')
           | Response stop_reason output_message \<Rightarrow>
               (let messages' = messages st @ [output_message] in
                if stop_reason = Some ''end_turn'' then
                  Inl (finish Completed (extract_text (get_content output_message) [])
                         turns' (tool_calls_log st) messages' s')
                else if stop_reason = Some ''tool_use'' then
                  (case run_tools e self (get_content output_message)
                          (tool_calls_log st) [] s' of
                     (log', tool_results, s'') \<Rightarrow>
                       Inr \<lparr>messages = messages' @ [\<lparr>role = ''user'', content = Some tool_results\<rparr>],
                            tool_calls_log = log', cur_turns = turns', io = s''\<rparr>)
                else if stop_reason = Some ''max_tokens'' then
                  Inl (finish Truncated ''Response truncated due to max tokens''
                         turns' (tool_calls_log st) messages' s')
                else
                  Inl (finish Unrecognized (''Unexpected stop reason: '' @ str_opt stop_reason)
                         turns' (tool_calls_log st) messages' s'))))"

function agent_loop ::
  "'w env \<Rightarrow> MCPClient \<Rightarrow> string \<Rightarrow> bedrock_tool list \<Rightarrow> int \<Rightarrow> 'w locals \<Rightarrow> 'w run_result" where
  "agent_loop e self modelId tools max_turns st =
     (if cur_turns st < max_turns then
        (case turn e self modelId tools st of
           Inl res \<Rightarrow> res
         | Inr st' \<Rightarrow> agent_loop e self modelId tools max_turns st')
      else
        finish Exhausted ''Max turns reached'' (cur_turns st)
          (tool_calls_log st) (messages st) (io st))"
  by pat_completeness auto
termination
  by (relation "measure (\<lambda>(e, self, modelId, tools, max_turns, st). nat (max_turns - cur_turns st))")
     (auto simp: turn_def Let_def split: prod.splits converse_result.splits if_splits)

declare agent_loop.simps [simp del]

definition run ::
  "'w env \<Rightarrow> (string \<times> string) list \<Rightarrow> string \<Rightarrow> string \<Rightarrow> int \<Rightarrow> MCPClient \<times> 'w sys
     \<Rightarrow> MCPClient \<times> 'w run_result" where
  "run e servers modelId user_message max_turns cs =
     (let messages0 = [\<lparr>role = ''user'', content = Some [Text user_message]\<rparr>]
      in case fetch_all_tools e servers cs of
           (tools, self', s') \<Rightarrow>
             (self', agent_loop e self' modelId tools max_turns
                       \<lparr>messages = messages0, tool_calls_log = [], cur_turns = 0, io = s'\<rparr>))"

subsection \<open>Calls that overlap on one client\<close>

text \<open>
  \<^verbatim>\<open>mcp_client\<close> is one object for the whole process, and \<^verbatim>\<open>fetch_all_tools\<close> is a
  coroutine: it runs until it awaits, and other calls run in the meantime. A call
  tests the cache as soon as it is made (nothing is awaited before line 54); with the
  cache set it returns at once. Otherwise it is suspended at \<^verbatim>\<open>await client.get\<close>,
  once for each server; when it is resumed it reads the reply, appends to its own
  \<^verbatim>\<open>all_tools\<close> and assigns into the shared \<^verbatim>\<open>tool_to_server\<close>. After the last
  server it leaves the \<^verbatim>\<open>async with\<close> block and stores its \<^verbatim>\<open>all_tools\<close> in
  \<^verbatim>\<open>tools_cache\<close>, whatever the cache holds by then.

  A call in flight is the list of servers it still has to ask with its \<^verbatim>\<open>all_tools\<close>;
  a call that returned is the list it returned.
\<close>

datatype fetch_call =
    Fetch_loop "(string \<times> string) list" "bedrock_tool list"
  | Fetch_done "bedrock_tool list"

text \<open>Resuming a call runs it up to its next await, or to its return.\<close>

fun resume ::
  "'w env \<Rightarrow> fetch_call \<Rightarrow> MCPClient \<Rightarrow> 'w sys \<Rightarrow> fetch_call \<times> MCPClient \<times> 'w sys" where
  "resume e (Fetch_done all_tools) self s = (Fetch_done all_tools, self, s)"
| "resume e (Fetch_loop [] all_tools) self s =
     (Fetch_done all_tools, self\<lparr>tools_cache := Some all_tools\<rparr>, s)"
| "resume e (Fetch_loop ((server_name, server_url) # rest) all_tools) self s =
     (case client_get e (server_url @ ''/tools'') s of
        (r, s') \<Rightarrow>
          (case read_tools server_url r all_tools (tool_to_server self) of
             (ok, all_tools', t2s') \<Rightarrow>
               (Fetch_loop rest all_tools', self\<lparr>tool_to_server := t2s'\<rparr>, s')))"

text \<open>
  The process: the shared client, the outside world, and the calls of
  \<^verbatim>\<open>fetch_all_tools\<close> made so far, in the order they were made.
\<close>

record 'w process =
  mcp_client :: MCPClient
  outside :: "'w sys"
  calls :: "fetch_call list"

text \<open>
  What can happen next: a new call of \<^verbatim>\<open>fetch_all_tools\<close> (from \<^verbatim>\<open>list_tools\<close> or
  from the first lines of \<^verbatim>\<open>run\<close>); a suspended call, given by its position, is
  resumed; or the rest of the program takes a step. The rest of the program is
  \<^verbatim>\<open>execute_tool\<close> and the loop of \<^verbatim>\<open>run\<close>: they read \<^verbatim>\<open>mcp_client\<close> and never
  assign to it, and what they do to the outside world is a POST to a tool server or a
  call of the backend, here with any arguments.
\<close>

datatype action =
    Call
  | Resume nat
  | Other_post string json
  | Other_converse string "message list" "tool_config option"

fun step :: "'w env \<Rightarrow> (string \<times> string) list \<Rightarrow> action \<Rightarrow> 'w process \<Rightarrow> 'w process" where
  "step e servers Call p =
     (case tools_cache (mcp_client p) of
        Some cached \<Rightarrow> p\<lparr>calls := calls p @ [Fetch_done cached]\<rparr>
      | None \<Rightarrow> p\<lparr>calls := calls p @ [Fetch_loop servers []]\<rparr>)"
| "step e servers (Resume i) p =
     (if i < length (calls p) then
        (case resume e (calls p ! i) (mcp_client p) (outside p) of
           (c, self, s) \<Rightarrow> \<lparr>mcp_client = self, outside = s, calls = (calls p)[i := c]\<rparr>)
      else p)"
| "step e servers (Other_post url body) p =
     p\<lparr>outside := snd (client_post e url body (outside p))\<rparr>"
| "step e servers (Other_converse modelId msgs cfg) p =
     p\<lparr>outside := snd (bedrock_converse e modelId msgs cfg (outside p))\<rparr>"

fun steps :: "'w env \<Rightarrow> (string \<times> string) list \<Rightarrow> action list \<Rightarrow> 'w process \<Rightarrow> 'w process" where
  "steps e servers [] p = p"
| "steps e servers (a # acts) p = steps e servers acts (step e servers a p)"

fun returned :: "fetch_call \<Rightarrow> bool" where
  "returned (Fetch_done all_tools) = True"
| "returned (Fetch_loop servers all_tools) = False"

subsection \<open>Reading the trace and the messages\<close>

text \<open>
  The replies the endpoints give to the GET requests of one pass of
  \<^verbatim>\<open>fetch_all_tools\<close> over the servers, in the order of the requests.
\<close>

fun fetch_replies :: "'w env \<Rightarrow> (string \<times> string) list \<Rightarrow> 'w sys \<Rightarrow> http_result list" where
  "fetch_replies e [] s = []"
| "fetch_replies e ((server_name, server_url) # rest) s =
     (case client_get e (server_url @ ''/tools'') s of
        (r, s') \<Rightarrow> r # fetch_replies e rest s')"

definition get_events :: "(string \<times> string) list \<Rightarrow> http_result list \<Rightarrow> event list" where
  "get_events servers rs = map (\<lambda>p. Get (snd (fst p) @ ''/tools'') (snd p)) (zip servers rs)"

text \<open>
  What a reply says, read from the payload alone and not by running the code above.
  The tool list of a reply: the value under \<^verbatim>\<open>tools\<close> (the empty list when the key
  is missing) of a status-200 reply whose body is a JSON object, when that value can be
  iterated; no list for a network error, another status, a body that is not JSON or not
  an object, or a \<^verbatim>\<open>tools\<close> that cannot be iterated.
\<close>

definition tool_list :: "http_result \<Rightarrow> json list option" where
  "tool_list r =
     (case r of
        Inl exc \<Rightarrow> None
      | Inr resp \<Rightarrow>
          if status_code resp = 200 then
            (case body_json resp of
               Inr (JObj kvs) \<Rightarrow> py_iter (dict_get kvs ''tools'' (JArr []))
             | _ \<Rightarrow> None)
          else None)"

text \<open>
  An entry of a tool list: its name, when the entry is a dict that has one; whether
  it can be registered (it has a name and the name can be a dict key); the tool
  definition it is translated to (a missing description is the empty string, a
  missing schema the open object schema); the key it is registered under.
\<close>

definition entry_name :: "json \<Rightarrow> json option" where
  "entry_name t = (case t of JObj kvs \<Rightarrow> map_of kvs ''name'' | _ \<Rightarrow> None)"

definition entry_ok :: "json \<Rightarrow> bool" where
  "entry_ok t = (case entry_name t of None \<Rightarrow> False | Some nm \<Rightarrow> hashable nm)"

definition entry_field :: "json \<Rightarrow> string \<Rightarrow> json \<Rightarrow> json" where
  "entry_field t k dflt = (case t of JObj kvs \<Rightarrow> dict_get kvs k dflt | _ \<Rightarrow> dflt)"

definition bedrock_format :: "json \<Rightarrow> bedrock_tool" where
  "bedrock_format t =
     \<lparr>name = entry_field t ''name'' JNull,
      description = entry_field t ''description'' (JStr []),
      inputSchema = entry_field t ''inputSchema'' default_schema\<rparr>"

definition entry_key :: "json \<Rightarrow> json" where
  "entry_key t = dict_key (entry_field t ''name'' JNull)"

text \<open>
  The entries of a list that are read: those before the first entry that cannot be
  registered. That entry ends the list; when it has a name (which then is a list or a
  dict), its tool definition is still in the catalog, under no key of the map.
\<close>

definition registered :: "json list \<Rightarrow> json list" where
  "registered ts = takeWhile entry_ok ts"

definition unregistered :: "json list \<Rightarrow> bedrock_tool list" where
  "unregistered ts =
     (case dropWhile entry_ok ts of
        [] \<Rightarrow> []
      | t # rest \<Rightarrow> (if entry_name t = None then [] else [bedrock_format t]))"

text \<open>
  An endpoint succeeds when its reply has a tool list and every entry can be
  registered. It contributes the tool definitions of the entries read; it declares the
  keys of those entries.
\<close>

definition succeeds :: "http_result \<Rightarrow> bool" where
  "succeeds r = (case tool_list r of None \<Rightarrow> False | Some ts \<Rightarrow> list_all entry_ok ts)"

definition contribution :: "http_result \<Rightarrow> bedrock_tool list" where
  "contribution r =
     (case tool_list r of
        None \<Rightarrow> []
      | Some ts \<Rightarrow> map bedrock_format (registered ts) @ unregistered ts)"

definition declares :: "http_result \<Rightarrow> json \<Rightarrow> bool" where
  "declares r k =
     (case tool_list r of None \<Rightarrow> False | Some ts \<Rightarrow> k \<in> set (map entry_key (registered ts)))"

text \<open>The URLs of the servers whose reply declares the name, in the order of processing.\<close>

definition declaring :: "(string \<times> string) list \<Rightarrow> http_result list \<Rightarrow> json \<Rightarrow> string list" where
  "declaring servers rs k =
     map (\<lambda>p. snd (fst p)) (filter (\<lambda>p. declares (snd p) k) (zip servers rs))"

text \<open>The replies of the backend recorded in a trace, and those added since an earlier state.\<close>

fun reply_of :: "event \<Rightarrow> converse_result list" where
  "reply_of (Converse modelId msgs cfg r) = [r]"
| "reply_of ev = []"

definition replies :: "event list \<Rightarrow> converse_result list" where
  "replies tr = concat (map reply_of tr)"



text \<open>The tool-use blocks of a content list, in order, as (name, input, toolUseId).\<close>

fun tool_uses :: "content_block list \<Rightarrow> (string \<times> json \<times> string) list" where
  "tool_uses [] = []"
| "tool_uses (ToolUse tool_name tool_input use_id # rest) =
     (tool_name, tool_input, use_id) # tool_uses rest"
| "tool_uses (c # rest) = tool_uses rest"

fun result_id :: "content_block \<Rightarrow> string option" where
  "result_id (ToolResult use_id txt) = Some use_id"
| "result_id c = None"

fun block_text :: "content_block \<Rightarrow> string" where
  "block_text (Text t) = t"
| "block_text c = []"

subsection \<open>A scripted outside world\<close>

text \<open>
  Endpoints and a backend that answer from tables, for concrete runs. The world is
  the number of calls made so far. A GET or POST to a URL that is not in its table
  fails to connect, and so does every GET while the world is below \<open>outage\<close>. The
  backend answers the \<open>n\<close>-th call of a run (the history then has \<open>2 * n + 1\<close>
  messages) with the \<open>n\<close>-th entry of its list.
\<close>

definition scripted ::
  "nat \<Rightarrow> (string \<times> http_result) list \<Rightarrow> (string \<times> http_result) list
     \<Rightarrow> converse_result list \<Rightarrow> nat env" where
  "scripted outage gets posts backend =
     \<lparr>http_get = (\<lambda>url w.
        (if w < outage then Inl ''connection refused''
         else case map_of gets url of None \<Rightarrow> Inl ''connection refused'' | Some r \<Rightarrow> r, Suc w)),
      http_post = (\<lambda>url body w.
        (case map_of posts url of None \<Rightarrow> Inl ''connection refused'' | Some r \<Rightarrow> r, Suc w)),
      converse = (\<lambda>modelId msgs cfg w.
        (if length msgs div 2 < length backend then backend ! (length msgs div 2)
         else OtherException ''no reply'', Suc w))\<rparr>"

definition ok_json :: "json \<Rightarrow> http_result" where
  "ok_json v = Inr \<lparr>status_code = 200, body_text = dumps v, body_json = Inr v\<rparr>"

definition start :: "nat sys" where
  "start = \<lparr>world = 0, trace = []\<rparr>"

definition servers2 :: "(string \<times> string) list" where
  "servers2 = MCP_SERVERS ''http://fs'' ''http://calc''"

text \<open>Three payloads of the list operation; the last one has an entry without a name.\<close>

definition fs_tools :: json where
  "fs_tools = JObj [(''tools'', JArr [JObj [(''name'', JStr ''read_file'')]])]"

definition calc_tools :: json where
  "calc_tools =
     JObj [(''tools'', JArr [JObj [(''name'', JStr ''calc''), (''description'', JStr ''Calculator'')]])]"

definition broken_tools :: json where
  "broken_tools =
     JObj [(''tools'', JArr [JObj [(''name'', JStr ''read_file'')],
                              JObj [(''description'', JStr ''no name'')]])]"

text \<open>Replies of the backend: a request for one tool, a final answer, a fault.\<close>

definition ask :: "string \<Rightarrow> string \<Rightarrow> converse_result" where
  "ask tool_name use_id =
     Response (Some ''tool_use'')
       \<lparr>role = ''assistant'',
        content = Some [Text ''Let me check.'',
                        ToolUse tool_name (JObj [(''a'', JNum 6), (''b'', JNum 7)]) use_id]\<rparr>"

definition say :: "string \<Rightarrow> converse_result" where
  "say txt = Response (Some ''end_turn'') \<lparr>role = ''assistant'', content = Some [Text txt]\<rparr>"

text \<open>
  The environments of the examples: both endpoints list their tools and the
  calculator answers 42; both endpoints list the same tool; the first endpoint sends
  the payload with the nameless entry; no endpoint can be reached during the first two
  calls.
\<close>

definition calc_env :: "converse_result list \<Rightarrow> nat env" where
  "calc_env backend =
     scripted 0 [(''http://fs/tools'', ok_json fs_tools), (''http://calc/tools'', ok_json calc_tools)]
       [(''http://calc/execute'', ok_json (JObj [(''result'', JNum 42)]))] backend"

definition dup_env :: "nat env" where
  "dup_env =
     scripted 0 [(''http://fs/tools'', ok_json calc_tools), (''http://calc/tools'', ok_json calc_tools)]
       [(''http://calc/execute'', ok_json (JObj [(''result'', JNum 42)]))] []"

definition broken_env :: "nat env" where
  "broken_env =
     scripted 0 [(''http://fs/tools'', ok_json broken_tools), (''http://calc/tools'', ok_json calc_tools)]
       [] []"

definition outage_env :: "converse_result list \<Rightarrow> nat env" where
  "outage_env backend =
     scripted 2 [(''http://fs/tools'', ok_json fs_tools), (''http://calc/tools'', ok_json calc_tools)]
       [(''http://calc/execute'', ok_json (JObj [(''result'', JNum 42)]))] backend"

text \<open>
  The state in which the loop of \<^verbatim>\<open>run\<close> starts, and the result of a first
  \<^verbatim>\<open>fetch_all_tools\<close> on a new client.
\<close>

definition seed :: "string \<Rightarrow> 'w sys \<Rightarrow> 'w locals" where
  "seed user_message s =
     \<lparr>messages = [\<lparr>role = ''user'', content = Some [Text user_message]\<rparr>],
      tool_calls_log = [], cur_turns = 0, io = s\<rparr>"

definition new_process :: "nat process" where
  "new_process = \<lparr>mcp_client = MCPClient_init, outside = start, calls = []\<rparr>"

definition fetched :: "nat env \<Rightarrow> bedrock_tool list \<times> MCPClient \<times> nat sys" where
  "fetched e = fetch_all_tools e servers2 (MCPClient_init, start)"

section \<open>Properties\<close>

subsection \<open>The loops of \<^verbatim>\<open>fetch_all_tools\<close> in closed form\<close>

text \<open>
  The code against the payload: what the two loops over one reply return is what the
  reply says. The bool is \<open>succeeds\<close>, the tools appended are \<open>contribution\<close>, and
  the keys assigned are those the reply \<open>declares\<close>.
\<close>

lemma convert_tools_closed:
  "convert_tools url ts at t2s =
     (list_all entry_ok ts,
      at @ map bedrock_format (registered ts) @ unregistered ts,
      \<lambda>k. if k \<in> set (map entry_key (registered ts)) then Some url else t2s k)"
proof (induction ts arbitrary: at t2s)
  case Nil
  show ?case by (simp add: registered_def unregistered_def)
next
  case (Cons t ts)
  show ?case
  proof (cases t)
    case (JObj kvs)
    show ?thesis
    proof (cases "map_of kvs ''name''")
      case None
      with JObj show ?thesis
        by (simp add: registered_def unregistered_def entry_ok_def entry_name_def)
    next
      case (Some nm)
      have f: "bedrock_format t =
                 \<lparr>name = nm, description = dict_get kvs ''description'' (JStr []),
                  inputSchema = dict_get kvs ''inputSchema'' default_schema\<rparr>"
        and k: "entry_key t = dict_key nm"
        using JObj Some by (simp_all add: bedrock_format_def entry_key_def entry_field_def dict_get_def)
      show ?thesis
      proof (cases "hashable nm")
        case True
        then have ok: "entry_ok t"
          using JObj Some by (simp add: entry_ok_def entry_name_def)
        have "convert_tools url (t # ts) at t2s
                = convert_tools url ts (at @ [bedrock_format t]) (t2s(dict_key nm \<mapsto> url))"
          using JObj Some True f by (simp add: Let_def)
        also have "\<dots> = (list_all entry_ok ts,
              (at @ [bedrock_format t]) @ map bedrock_format (registered ts) @ unregistered ts,
              \<lambda>k. if k \<in> set (map entry_key (registered ts)) then Some url
                   else (t2s(dict_key nm \<mapsto> url)) k)"
          by (rule Cons.IH)
        also have "\<dots> = (list_all entry_ok (t # ts),
              at @ map bedrock_format (registered (t # ts)) @ unregistered (t # ts),
              \<lambda>k. if k \<in> set (map entry_key (registered (t # ts))) then Some url else t2s k)"
          using ok k by (auto simp: registered_def unregistered_def fun_eq_iff)
        finally show ?thesis .
      next
        case False
        then have "\<not> entry_ok t" "entry_name t \<noteq> None"
          using JObj Some by (simp_all add: entry_ok_def entry_name_def)
        with JObj Some False f show ?thesis
          by (simp add: Let_def registered_def unregistered_def)
      qed
    qed
  qed (simp_all add: registered_def unregistered_def entry_ok_def entry_name_def)
qed

lemma read_tools_closed:
  "read_tools url r at t2s =
     (succeeds r, at @ contribution r, \<lambda>k. if declares r k then Some url else t2s k)"
  by (auto simp: read_tools_def succeeds_def contribution_def declares_def tool_list_def
        convert_tools_closed split: sum.splits json.splits option.splits)

lemma length_fetch_replies: "length (fetch_replies e servers s) = length servers"
  by (induction e servers s rule: fetch_replies.induct) (auto split: prod.splits)

lemma fetch_servers_closed:
  "fetch_servers e servers at t2s s = (at', t2s', s') \<Longrightarrow>
     at' = at @ concat (map contribution (fetch_replies e servers s))
   \<and> t2s' k = (case declaring servers (fetch_replies e servers s) k of
                 [] \<Rightarrow> t2s k | u # us \<Rightarrow> Some (last (u # us)))
   \<and> trace s' = trace s @ get_events servers (fetch_replies e servers s)"
proof (induction e servers at t2s s arbitrary: at' t2s' s' rule: fetch_servers.induct)
  case (1 e at t2s s)
  then show ?case by (simp add: declaring_def get_events_def)
next
  case (2 e server_name server_url rest at t2s s)
  obtain r s1 where g: "client_get e (server_url @ ''/tools'') s = (r, s1)"
    by (cases "client_get e (server_url @ ''/tools'') s")
  have tr: "trace s1 = trace s @ [Get (server_url @ ''/tools'') r]"
    using g by (auto simp: client_get_def split: prod.splits)
  let ?t2s1 = "\<lambda>k. if declares r k then Some server_url else t2s k"
  have rt: "read_tools server_url r at t2s = (succeeds r, at @ contribution r, ?t2s1)"
    by (rule read_tools_closed)
  from "2.prems" g rt
  have rest: "fetch_servers e rest (at @ contribution r) ?t2s1 s1 = (at', t2s', s')"
    by simp
  from "2.IH"[OF g[symmetric] rt[symmetric] refl rest]
  show ?case
    using g tr
    by (auto simp: declaring_def get_events_def split: list.splits)
qed

lemma fetch_all_tools_closed:
  assumes "tools_cache self = None"
  shows "fetch_all_tools e servers (self, s) =
           (concat (map contribution (fetch_replies e servers s)),
            \<lparr>tools_cache = Some (concat (map contribution (fetch_replies e servers s))),
             tool_to_server = (\<lambda>k. case declaring servers (fetch_replies e servers s) k of
                                      [] \<Rightarrow> tool_to_server self k
                                    | u # us \<Rightarrow> Some (last (u # us)))\<rparr>,
            \<lparr>world = world (snd (snd (fetch_servers e servers [] (tool_to_server self) s))),
             trace = trace s @ get_events servers (fetch_replies e servers s)\<rparr>)"
proof -
  obtain at' t2s' s' where f: "fetch_servers e servers [] (tool_to_server self) s = (at', t2s', s')"
    by (cases "fetch_servers e servers [] (tool_to_server self) s")
  from fetch_servers_closed[OF f]
  have "at' = concat (map contribution (fetch_replies e servers s))"
    and "\<And>k. t2s' k = (case declaring servers (fetch_replies e servers s) k of
                 [] \<Rightarrow> tool_to_server self k | u # us \<Rightarrow> Some (last (u # us)))"
    and "trace s' = trace s @ get_events servers (fetch_replies e servers s)"
    by auto
  then show ?thesis
    using assms f by (auto simp: fetch_all_tools_def fun_eq_iff)
qed

lemma execute_tool_routes:
  assumes "tool_to_server self (JStr tool_name) = Some server_url" and "server_url \<noteq> []"
  shows "\<exists>r. trace (snd (execute_tool e self tool_name tool_input s))
           = trace s @ [Post (server_url @ ''/execute'')
                          (JObj [(''tool'', JStr tool_name), (''arguments'', tool_input)]) r]"
  using assms
  by (auto simp: execute_tool_def client_post_def
           split: prod.splits sum.splits json.splits option.splits)

subsection \<open>Endpoints that fail during the fetch\<close>

text \<open>
  The claim C6 as it is stated, with the catalog the concatenation of what the
  succeeding endpoints contribute, fails: the first endpoint answers with a list whose
  second entry has no name, so it fails, and its first tool is in the catalog all the
  same.
\<close>

theorem failing_endpoint_counterexample:
  "fetch_replies broken_env servers2 start = [ok_json broken_tools, ok_json calc_tools]
   \<and> \<not> succeeds (ok_json broken_tools)
   \<and> map name (fst (fetch_all_tools broken_env servers2 (MCPClient_init, start)))
       = [JStr ''read_file'', JStr ''calc'']
   \<and> fst (fetch_all_tools broken_env servers2 (MCPClient_init, start))
       \<noteq> concat (map contribution (filter succeeds (fetch_replies broken_env servers2 start)))"
  by code_simp

text \<open>
  C6, amended. With an empty cache, \<^verbatim>\<open>fetch_all_tools\<close> sends one GET to every
  endpoint, in order, whatever the earlier endpoints answered, and returns a catalog:
  the concatenation, in that order, of what each reply contributes. The code treats a
  reply as a success exactly when it has a tool list all of whose entries can be
  registered, and then the reply contributes the tool definition of every entry of the
  list. A reply without a tool list (a network error, a status other than 200, a body
  that is not JSON) fails and contributes nothing. A reply whose list has an entry
  that cannot be registered fails and contributes the entries before it (and that
  entry too, when it has a name). A reply with an empty list succeeds and contributes
  nothing.
\<close>

theorem fetch_skips_failures:
  assumes "tools_cache self = None"
  shows "length (fetch_replies e servers s) = length servers
       \<and> trace (snd (snd (fetch_all_tools e servers (self, s))))
           = trace s @ get_events servers (fetch_replies e servers s)
       \<and> fst (fetch_all_tools e servers (self, s))
           = concat (map contribution (fetch_replies e servers s))
       \<and> (\<forall>url r at t2s. fst (read_tools url r at t2s) = succeeds r)
       \<and> (\<forall>resp kvs ts.
             status_code resp = 200 \<and> body_json resp = Inr (JObj kvs)
             \<and> dict_get kvs ''tools'' (JArr []) = JArr ts \<and> list_all entry_ok ts \<longrightarrow>
             succeeds (Inr resp) \<and> contribution (Inr resp) = map bedrock_format ts)
       \<and> (\<forall>r ts. tool_list r = Some ts \<and> succeeds r \<longrightarrow>
             list_all entry_ok ts \<and> contribution r = map bedrock_format ts)
       \<and> (\<forall>r ts. tool_list r = Some ts \<and> \<not> succeeds r \<longrightarrow>
             contribution r = map bedrock_format (takeWhile entry_ok ts) @ unregistered ts
             \<and> length (takeWhile entry_ok ts) < length ts)
       \<and> (\<forall>r. tool_list r = None \<longrightarrow> \<not> succeeds r \<and> contribution r = [])
       \<and> (\<forall>exc. tool_list (Inl exc) = None)
       \<and> (\<forall>resp. status_code resp \<noteq> 200 \<longrightarrow> tool_list (Inr resp) = None)
       \<and> (\<forall>resp exc. body_json resp = Inl exc \<longrightarrow> tool_list (Inr resp) = None)
       \<and> (\<forall>r. tool_list r = Some [] \<longrightarrow> succeeds r \<and> contribution r = [])
       \<and> (\<forall>r. succeeds r = (\<exists>ts. tool_list r = Some ts \<and> list_all entry_ok ts))
       \<and> (\<forall>r ts. (tool_list r = Some ts) =
               (\<exists>resp kvs. r = Inr resp \<and> status_code resp = 200
                  \<and> body_json resp = Inr (JObj kvs)
                  \<and> py_iter (dict_get kvs ''tools'' (JArr [])) = Some ts))"
proof -
  have c1: "length (fetch_replies e servers s) = length servers"
    by (rule length_fetch_replies)
  from fetch_all_tools_closed[OF assms, of e servers s]
  have c2: "trace (snd (snd (fetch_all_tools e servers (self, s))))
           = trace s @ get_events servers (fetch_replies e servers s)"
    and c3: "fst (fetch_all_tools e servers (self, s))
           = concat (map contribution (fetch_replies e servers s))"
    by simp_all
  have c4: "\<forall>url r at t2s. fst (read_tools url r at t2s) = succeeds r"
    by (simp add: read_tools_closed)
  have all: "list_all entry_ok ts \<and> contribution r = map bedrock_format ts"
    if "tool_list r = Some ts" "succeeds r" for r ts
  proof -
    from that have a: "list_all entry_ok ts"
      by (simp add: succeeds_def)
    then have tw: "takeWhile entry_ok ts = ts" "dropWhile entry_ok ts = []"
      by (simp_all add: list_all_iff)
    from that(1)
    have "contribution r = map bedrock_format (takeWhile entry_ok ts)
            @ (case dropWhile entry_ok ts of [] \<Rightarrow> []
               | t # rest \<Rightarrow> (if entry_name t = None then [] else [bedrock_format t]))"
      by (simp add: contribution_def registered_def unregistered_def)
    then have "contribution r = map bedrock_format ts"
      unfolding tw by simp
    with a show ?thesis by simp
  qed
  have c6: "\<forall>r ts. tool_list r = Some ts \<and> succeeds r \<longrightarrow>
             list_all entry_ok ts \<and> contribution r = map bedrock_format ts"
  proof (intro allI impI)
    fix r ts
    assume "tool_list r = Some ts \<and> succeeds r"
    then show "list_all entry_ok ts \<and> contribution r = map bedrock_format ts"
      using all[of r ts] by simp
  qed
  have c5: "\<forall>resp kvs ts.
             status_code resp = 200 \<and> body_json resp = Inr (JObj kvs)
             \<and> dict_get kvs ''tools'' (JArr []) = JArr ts \<and> list_all entry_ok ts \<longrightarrow>
             succeeds (Inr resp) \<and> contribution (Inr resp) = map bedrock_format ts"
  proof (intro allI impI)
    fix resp :: http_response and kvs ts
    assume a: "status_code resp = 200 \<and> body_json resp = Inr (JObj kvs)
             \<and> dict_get kvs ''tools'' (JArr []) = JArr ts \<and> list_all entry_ok ts"
    then have t: "tool_list (Inr resp) = Some ts"
      by (simp add: tool_list_def)
    then have "succeeds (Inr resp)"
      using a by (simp add: succeeds_def)
    with all[OF t] show "succeeds (Inr resp) \<and> contribution (Inr resp) = map bedrock_format ts"
      by simp
  qed
  have c7: "\<forall>r ts. tool_list r = Some ts \<and> \<not> succeeds r \<longrightarrow>
             contribution r = map bedrock_format (takeWhile entry_ok ts) @ unregistered ts
             \<and> length (takeWhile entry_ok ts) < length ts"
  proof (intro allI impI)
    fix r ts
    assume a: "tool_list r = Some ts \<and> \<not> succeeds r"
    then have "\<not> list_all entry_ok ts"
      by (auto simp: succeeds_def)
    then obtain x where "x \<in> set ts" "\<not> entry_ok x"
      by (auto simp: list_all_iff)
    then have "takeWhile entry_ok ts \<noteq> ts"
      using set_takeWhileD[of x entry_ok ts] by auto
    moreover have "length (takeWhile entry_ok ts) \<le> length ts"
      by (rule length_takeWhile_le)
    ultimately have "length (takeWhile entry_ok ts) < length ts"
      using takeWhile_eq_take[of entry_ok ts] by (cases "length (takeWhile entry_ok ts) = length ts") auto
    with a show "contribution r = map bedrock_format (takeWhile entry_ok ts) @ unregistered ts
             \<and> length (takeWhile entry_ok ts) < length ts"
      by (simp add: contribution_def registered_def)
  qed
  have c8: "\<forall>r. tool_list r = None \<longrightarrow> \<not> succeeds r \<and> contribution r = []"
    by (simp add: succeeds_def contribution_def)
  have c9: "\<forall>exc. tool_list (Inl exc) = None"
    by (simp add: tool_list_def)
  have c10: "\<forall>resp. status_code resp \<noteq> 200 \<longrightarrow> tool_list (Inr resp) = None"
    by (simp add: tool_list_def)
  have c11: "\<forall>resp exc. body_json resp = Inl exc \<longrightarrow> tool_list (Inr resp) = None"
    by (auto simp: tool_list_def)
  have c12: "\<forall>r. tool_list r = Some [] \<longrightarrow> succeeds r \<and> contribution r = []"
    by (simp add: succeeds_def contribution_def registered_def unregistered_def)
  have c13: "\<forall>r. succeeds r = (\<exists>ts. tool_list r = Some ts \<and> list_all entry_ok ts)"
  proof
    fix r
    show "succeeds r = (\<exists>ts. tool_list r = Some ts \<and> list_all entry_ok ts)"
      by (cases "tool_list r") (simp_all add: succeeds_def)
  qed
  have c14: "\<forall>r ts. (tool_list r = Some ts) =
               (\<exists>resp kvs. r = Inr resp \<and> status_code resp = 200
                  \<and> body_json resp = Inr (JObj kvs)
                  \<and> py_iter (dict_get kvs ''tools'' (JArr [])) = Some ts)"
  proof (intro allI)
    fix r ts
    show "(tool_list r = Some ts) =
               (\<exists>resp kvs. r = Inr resp \<and> status_code resp = 200
                  \<and> body_json resp = Inr (JObj kvs)
                  \<and> py_iter (dict_get kvs ''tools'' (JArr [])) = Some ts)"
    proof (cases r)
      case (Inl exc)
      then show ?thesis by (simp add: tool_list_def)
    next
      case (Inr resp)
      show ?thesis
      proof (cases "status_code resp = 200")
        case False
        with Inr show ?thesis by (simp add: tool_list_def)
      next
        case True
        show ?thesis
        proof (cases "body_json resp")
          case (Inl exc)
          with Inr True show ?thesis by (simp add: tool_list_def)
        next
          case body: (Inr v)
          with Inr True show ?thesis
            by (cases v) (simp_all add: tool_list_def)
        qed
      qed
    qed
  qed
  show ?thesis
    by (intro conjI) (rule c1 c2 c3 c4 c5 c6 c7 c8 c9 c10 c11 c12 c13 c14)+
qed

theorem fetch_skips_failures_witness:
  "tools_cache MCPClient_init = None
   \<and> fetch_replies broken_env servers2 start = [ok_json broken_tools, ok_json calc_tools]
   \<and> trace (snd (snd (fetch_all_tools broken_env servers2 (MCPClient_init, start))))
       = [Get ''http://fs/tools'' (ok_json broken_tools), Get ''http://calc/tools'' (ok_json calc_tools)]
   \<and> fst (fetch_all_tools broken_env servers2 (MCPClient_init, start))
       = [\<lparr>name = JStr ''read_file'', description = JStr [], inputSchema = default_schema\<rparr>,
          \<lparr>name = JStr ''calc'', description = JStr ''Calculator'', inputSchema = default_schema\<rparr>]
   \<and> succeeds (ok_json calc_tools)
   \<and> contribution (ok_json calc_tools)
       = [\<lparr>name = JStr ''calc'', description = JStr ''Calculator'', inputSchema = default_schema\<rparr>]
   \<and> tool_list (ok_json broken_tools)
       = Some [JObj [(''name'', JStr ''read_file'')], JObj [(''description'', JStr ''no name'')]]
   \<and> \<not> succeeds (ok_json broken_tools)
   \<and> contribution (ok_json broken_tools)
       = [\<lparr>name = JStr ''read_file'', description = JStr [], inputSchema = default_schema\<rparr>]
   \<and> \<not> succeeds (Inl ''connection refused'') \<and> contribution (Inl ''connection refused'') = []
   \<and> succeeds (ok_json (JObj [])) \<and> contribution (ok_json (JObj [])) = []"
proof -
  let ?read = "JObj [(''name'', JStr ''read_file'')]"
  let ?anon = "JObj [(''description'', JStr ''no name'')]"
  let ?calc = "JObj [(''name'', JStr ''calc''), (''description'', JStr ''Calculator'')]"
  have h: "tools_cache MCPClient_init = None"
    by (simp add: MCPClient_init_def)
  note w = fetch_skips_failures[OF h, of broken_env servers2 start]
  have r: "fetch_replies broken_env servers2 start = [ok_json broken_tools, ok_json calc_tools]"
    by code_simp
  have g: "trace start @ get_events servers2 [ok_json broken_tools, ok_json calc_tools]
      = [Get ''http://fs/tools'' (ok_json broken_tools), Get ''http://calc/tools'' (ok_json calc_tools)]"
    by code_simp
  have f: "bedrock_format ?read
             = \<lparr>name = JStr ''read_file'', description = JStr [], inputSchema = default_schema\<rparr>"
          "bedrock_format ?calc
             = \<lparr>name = JStr ''calc'', description = JStr ''Calculator'', inputSchema = default_schema\<rparr>"
    by (simp_all add: bedrock_format_def entry_field_def dict_get_def)
  have e: "entry_ok ?read" "entry_ok ?calc" "\<not> entry_ok ?anon" "entry_name ?anon = None"
    by (simp_all add: entry_ok_def entry_name_def)
  have tc: "tool_list (ok_json calc_tools) = Some [?calc]"
    and tb: "tool_list (ok_json broken_tools) = Some [?read, ?anon]"
    and te: "tool_list (ok_json (JObj [])) = Some []"
    by (simp_all add: tool_list_def ok_json_def calc_tools_def broken_tools_def dict_get_def)
  have sc: "succeeds (ok_json calc_tools)"
    using tc e by (simp add: succeeds_def)
  have nb: "\<not> succeeds (ok_json broken_tools)"
    using tb e by (simp add: succeeds_def)
  from w have "tool_list (ok_json calc_tools) = Some [?calc] \<and> succeeds (ok_json calc_tools) \<longrightarrow>
             list_all entry_ok [?calc] \<and> contribution (ok_json calc_tools) = map bedrock_format [?calc]"
    by (elim conjE allE) assumption
  with tc sc have cc: "contribution (ok_json calc_tools) = map bedrock_format [?calc]"
    by simp
  from w have "tool_list (ok_json broken_tools) = Some [?read, ?anon] \<and> \<not> succeeds (ok_json broken_tools) \<longrightarrow>
             contribution (ok_json broken_tools)
               = map bedrock_format (takeWhile entry_ok [?read, ?anon]) @ unregistered [?read, ?anon]
             \<and> length (takeWhile entry_ok [?read, ?anon]) < length [?read, ?anon]"
    by (elim conjE allE) assumption
  with tb nb
  have "contribution (ok_json broken_tools)
          = map bedrock_format (takeWhile entry_ok [?read, ?anon]) @ unregistered [?read, ?anon]"
    by simp
  then have cb: "contribution (ok_json broken_tools) = [bedrock_format ?read]"
    using e by (simp add: unregistered_def)
  from w have tn: "tool_list (Inl ''connection refused'') = None"
    by (elim conjE allE) assumption
  from w have "tool_list (Inl ''connection refused'') = None \<longrightarrow>
      \<not> succeeds (Inl ''connection refused'') \<and> contribution (Inl ''connection refused'') = []"
    by (elim conjE allE) assumption
  with tn have n: "\<not> succeeds (Inl ''connection refused'') \<and> contribution (Inl ''connection refused'') = []"
    by simp
  from w have "tool_list (ok_json (JObj [])) = Some [] \<longrightarrow>
      succeeds (ok_json (JObj [])) \<and> contribution (ok_json (JObj [])) = []"
    by (elim conjE allE) assumption
  with te have z: "succeeds (ok_json (JObj [])) \<and> contribution (ok_json (JObj [])) = []"
    by simp
  from w have "fst (fetch_all_tools broken_env servers2 (MCPClient_init, start))
          = concat (map contribution (fetch_replies broken_env servers2 start))"
    by (elim conjE) assumption
  with r have "fst (fetch_all_tools broken_env servers2 (MCPClient_init, start))
          = concat (map contribution [ok_json broken_tools, ok_json calc_tools])"
    by simp
  then have c: "fst (fetch_all_tools broken_env servers2 (MCPClient_init, start))
          = [bedrock_format ?read, bedrock_format ?calc]"
    by (simp add: cb cc)
  from w have "trace (snd (snd (fetch_all_tools broken_env servers2 (MCPClient_init, start))))
       = trace start @ get_events servers2 (fetch_replies broken_env servers2 start)"
    by (elim conjE) assumption
  with r g have t: "trace (snd (snd (fetch_all_tools broken_env servers2 (MCPClient_init, start))))
       = [Get ''http://fs/tools'' (ok_json broken_tools), Get ''http://calc/tools'' (ok_json calc_tools)]"
    by simp
  show ?thesis
    using h r t c sc cc tb nb cb n z by (simp add: f)
qed

subsection \<open>Tools declared by several endpoints\<close>

lemma declaring_last:
  assumes len: "length rs = length servers" and j: "j < length servers"
    and dj: "declares (rs ! j) k"
    and later: "\<forall>l. j < l \<and> l < length servers \<longrightarrow> \<not> declares (rs ! l) k"
  shows "declaring servers rs k \<noteq> [] \<and> last (declaring servers rs k) = snd (servers ! j)"
proof -
  let ?z = "zip servers rs"
  let ?P = "\<lambda>p. declares (snd p) k"
  have lz: "length ?z = length servers" using len by simp
  have jz: "j < length ?z" using j lz by simp
  have split: "?z = take j ?z @ ?z ! j # drop (Suc j) ?z"
    by (rule id_take_nth_drop[OF jz])
  have zj: "?z ! j = (servers ! j, rs ! j)"
    using j len by simp
  have "\<not> ?P p" if "p \<in> set (drop (Suc j) ?z)" for p
  proof -
    from that obtain n where n: "n < length (drop (Suc j) ?z)" "p = drop (Suc j) ?z ! n"
      by (auto simp: in_set_conv_nth)
    then have l: "Suc j + n < length servers" using lz by simp
    with n have "p = (servers ! (Suc j + n), rs ! (Suc j + n))"
      using len by simp
    with later l show ?thesis by simp
  qed
  then have none: "filter ?P (drop (Suc j) ?z) = []"
    by (simp add: filter_empty_conv)
  have "filter ?P ?z = filter ?P (take j ?z) @ filter ?P (?z ! j # drop (Suc j) ?z)"
    by (subst split) simp
  also have "\<dots> = filter ?P (take j ?z) @ [?z ! j]"
    using none dj zj by simp
  finally have "declaring servers rs k = map (\<lambda>p. snd (fst p)) (filter ?P (take j ?z)) @ [snd (servers ! j)]"
    by (simp add: declaring_def zj)
  then show ?thesis by simp
qed

lemma listed_twice:
  assumes ij: "i < j" and j: "j < length rs"
    and t: "t \<in> set (contribution (rs ! i))" and u: "u \<in> set (contribution (rs ! j))"
    and same: "name t = name u"
  shows "\<not> distinct (map name (concat (map contribution rs)))"
proof -
  have ir: "i < length rs" using ij j by simp
  have split: "rs = take i rs @ rs ! i # drop (Suc i) rs"
    by (rule id_take_nth_drop[OF ir])
  have "rs ! j \<in> set (drop (Suc i) rs)"
  proof -
    have "drop (Suc i) rs ! (j - Suc i) = rs ! j" using ij j by simp
    moreover have "j - Suc i < length (drop (Suc i) rs)" using ij j by simp
    ultimately show ?thesis by (metis nth_mem)
  qed
  with u have "name u \<in> set (map name (concat (map contribution (drop (Suc i) rs))))"
    by auto
  moreover from t have "name t \<in> set (map name (contribution (rs ! i)))"
    by auto
  moreover have "map name (concat (map contribution rs))
      = map name (concat (map contribution (take i rs)))
        @ map name (contribution (rs ! i))
        @ map name (concat (map contribution (drop (Suc i) rs)))"
    by (subst split) simp
  ultimately show ?thesis using same by auto
qed

text \<open>
  The first half of C3 fails: when both endpoints list a tool named \<^verbatim>\<open>calc\<close>, the
  merged catalog holds two tools of that name.
\<close>

theorem unique_names_counterexample:
  "map name (fst (fetch_all_tools dup_env servers2 (MCPClient_init, start)))
     = [JStr ''calc'', JStr ''calc'']
   \<and> \<not> distinct (map name (fst (fetch_all_tools dup_env servers2 (MCPClient_init, start))))"
  by code_simp

text \<open>
  C3, amended. After \<^verbatim>\<open>fetch_all_tools\<close> has run on an empty cache, the catalog is
  the concatenation of what the replies contribute, and names are not unique in it: a
  name that two replies contribute is in it twice. The map \<^verbatim>\<open>tool_to_server\<close> holds
  one URL per name: that of the last server, in the order of processing, whose reply
  declared it (what the map held before when none did). So when two endpoints declare
  the same name and no later one does, the name is mapped to the later endpoint, and a
  dispatch of that name sends its one request there (when the URL is not the empty
  string, which \<^verbatim>\<open>execute_tool\<close> reads as a missing entry). A reply with a tool
  list all of whose entries can be registered declares the key of every entry and
  contributes the tool definition of every entry.
\<close>

theorem last_write_wins:
  assumes "tools_cache self = None"
    and "fetch_all_tools e servers (self, s) = (tools, self', s')"
  shows "tools = concat (map contribution (fetch_replies e servers s))
       \<and> (\<forall>k. tool_to_server self' k =
              (if declaring servers (fetch_replies e servers s) k = [] then tool_to_server self k
               else Some (last (declaring servers (fetch_replies e servers s) k))))
       \<and> (\<forall>i j k. i < j \<and> j < length servers
              \<and> declares (fetch_replies e servers s ! i) k
              \<and> declares (fetch_replies e servers s ! j) k
              \<and> (\<forall>l. j < l \<and> l < length servers \<longrightarrow> \<not> declares (fetch_replies e servers s ! l) k)
              \<longrightarrow> tool_to_server self' k = Some (snd (servers ! j)))
       \<and> (\<forall>i j t u. i < j \<and> j < length servers
              \<and> t \<in> set (contribution (fetch_replies e servers s ! i))
              \<and> u \<in> set (contribution (fetch_replies e servers s ! j))
              \<and> name t = name u
              \<longrightarrow> \<not> distinct (map name tools))
       \<and> (\<forall>resp kvs ts k.
              status_code resp = 200 \<and> body_json resp = Inr (JObj kvs)
              \<and> dict_get kvs ''tools'' (JArr []) = JArr ts \<and> list_all entry_ok ts
              \<longrightarrow> declares (Inr resp) k = (k \<in> set (map entry_key ts))
                \<and> contribution (Inr resp) = map bedrock_format ts)
       \<and> (\<forall>tool_name tool_input s2.
             declaring servers (fetch_replies e servers s) (JStr tool_name) \<noteq> []
             \<and> last (declaring servers (fetch_replies e servers s) (JStr tool_name)) \<noteq> [] \<longrightarrow>
             (\<exists>r. trace (snd (execute_tool e self' tool_name tool_input s2))
                    = trace s2 @ [Post (last (declaring servers (fetch_replies e servers s)
                                               (JStr tool_name)) @ ''/execute'')
                        (JObj [(''tool'', JStr tool_name), (''arguments'', tool_input)]) r]))
       \<and> (\<forall>i j tool_name tool_input s2. i < j \<and> j < length servers
              \<and> declares (fetch_replies e servers s ! i) (JStr tool_name)
              \<and> declares (fetch_replies e servers s ! j) (JStr tool_name)
              \<and> (\<forall>l. j < l \<and> l < length servers
                     \<longrightarrow> \<not> declares (fetch_replies e servers s ! l) (JStr tool_name))
              \<and> snd (servers ! j) \<noteq> []
              \<longrightarrow> (\<exists>r. trace (snd (execute_tool e self' tool_name tool_input s2))
                    = trace s2 @ [Post (snd (servers ! j) @ ''/execute'')
                        (JObj [(''tool'', JStr tool_name), (''arguments'', tool_input)]) r]))"
proof -
  let ?rs = "fetch_replies e servers s"
  let ?d = "declaring servers ?rs"
  have len: "length ?rs = length servers"
    by (rule length_fetch_replies)
  from fetch_all_tools_closed[OF assms(1), of e servers s] assms(2)
  have t: "tools = concat (map contribution ?rs)"
    and "tool_to_server self' = (\<lambda>k. case ?d k of
                                      [] \<Rightarrow> tool_to_server self k
                                    | u # us \<Rightarrow> Some (last (u # us)))"
    by auto
  then have m: "tool_to_server self' k = (if ?d k = [] then tool_to_server self k else Some (last (?d k)))"
    for k
    by (cases "?d k") simp_all
  have later: "tool_to_server self' k = Some (snd (servers ! j))"
    if "j < length servers" "declares (?rs ! j) k"
       "\<forall>l. j < l \<and> l < length servers \<longrightarrow> \<not> declares (?rs ! l) k" for j k
    using declaring_last[OF len that] by (simp add: m)
  have twice: "\<not> distinct (map name tools)"
    if "i < j" "j < length servers" "t \<in> set (contribution (?rs ! i))"
       "u \<in> set (contribution (?rs ! j))" "name t = name u" for i j t u
    using listed_twice[of i j ?rs t u] that len by (simp add: t)
  have wf: "declares (Inr resp) k = (k \<in> set (map entry_key ts))
            \<and> contribution (Inr resp) = map bedrock_format ts"
    if "status_code resp = 200" "body_json resp = Inr (JObj kvs)"
       "dict_get kvs ''tools'' (JArr []) = JArr ts" "list_all entry_ok ts" for resp kvs ts k
  proof -
    have tl: "tool_list (Inr resp) = Some ts"
      using that by (simp add: tool_list_def)
    from that(4) have tw: "takeWhile entry_ok ts = ts" "dropWhile entry_ok ts = []"
      by (simp_all add: list_all_iff)
    have "declares (Inr resp) k = (k \<in> set (map entry_key (takeWhile entry_ok ts)))"
      using tl by (simp add: declares_def registered_def)
    moreover have "contribution (Inr resp) = map bedrock_format (takeWhile entry_ok ts)
            @ (case dropWhile entry_ok ts of [] \<Rightarrow> []
               | t # rest \<Rightarrow> (if entry_name t = None then [] else [bedrock_format t]))"
      using tl by (simp add: contribution_def registered_def unregistered_def)
    ultimately show ?thesis unfolding tw by simp
  qed
  have route: "\<exists>r. trace (snd (execute_tool e self' tool_name tool_input s2))
                    = trace s2 @ [Post (last (?d (JStr tool_name)) @ ''/execute'')
                        (JObj [(''tool'', JStr tool_name), (''arguments'', tool_input)]) r]"
    if "?d (JStr tool_name) \<noteq> []" and "last (?d (JStr tool_name)) \<noteq> []"
    for tool_name tool_input s2
  proof (rule execute_tool_routes)
    show "tool_to_server self' (JStr tool_name) = Some (last (?d (JStr tool_name)))"
      using that(1) by (simp add: m)
    show "last (?d (JStr tool_name)) \<noteq> []" by (rule that(2))
  qed
  have route2: "\<exists>r. trace (snd (execute_tool e self' tool_name tool_input s2))
                    = trace s2 @ [Post (snd (servers ! j) @ ''/execute'')
                        (JObj [(''tool'', JStr tool_name), (''arguments'', tool_input)]) r]"
    if "j < length servers" "declares (?rs ! j) (JStr tool_name)"
       "\<forall>l. j < l \<and> l < length servers \<longrightarrow> \<not> declares (?rs ! l) (JStr tool_name)"
       "snd (servers ! j) \<noteq> []"
    for j tool_name tool_input s2
  proof (rule execute_tool_routes)
    show "tool_to_server self' (JStr tool_name) = Some (snd (servers ! j))"
      using later[OF that(1,2,3)] .
    show "snd (servers ! j) \<noteq> []" by (rule that(4))
  qed
  show ?thesis
  proof (intro conjI allI impI)
    show "tools = concat (map contribution ?rs)" by (rule t)
  next
    fix k
    show "tool_to_server self' k = (if ?d k = [] then tool_to_server self k else Some (last (?d k)))"
      by (rule m)
  next
    fix i j k
    assume "i < j \<and> j < length servers \<and> declares (?rs ! i) k \<and> declares (?rs ! j) k
              \<and> (\<forall>l. j < l \<and> l < length servers \<longrightarrow> \<not> declares (?rs ! l) k)"
    then show "tool_to_server self' k = Some (snd (servers ! j))"
      using later[of j k] by simp
  next
    fix i j t u
    assume "i < j \<and> j < length servers \<and> t \<in> set (contribution (?rs ! i))
              \<and> u \<in> set (contribution (?rs ! j)) \<and> name t = name u"
    then show "\<not> distinct (map name tools)"
      using twice[of i j t u] by simp
  next
    fix resp :: http_response and kvs ts k
    assume a: "status_code resp = 200 \<and> body_json resp = Inr (JObj kvs)
              \<and> dict_get kvs ''tools'' (JArr []) = JArr ts \<and> list_all entry_ok ts"
    then show "declares (Inr resp) k = (k \<in> set (map entry_key ts))"
      using wf[of resp kvs ts k] by simp
    from a show "contribution (Inr resp) = map bedrock_format ts"
      using wf[of resp kvs ts k] by simp
  next
    fix tool_name tool_input s2
    assume "?d (JStr tool_name) \<noteq> [] \<and> last (?d (JStr tool_name)) \<noteq> []"
    then show "\<exists>r. trace (snd (execute_tool e self' tool_name tool_input s2))
                    = trace s2 @ [Post (last (?d (JStr tool_name)) @ ''/execute'')
                        (JObj [(''tool'', JStr tool_name), (''arguments'', tool_input)]) r]"
      using route[of tool_name tool_input s2] by simp
  next
    fix i j tool_name tool_input s2
    assume "i < j \<and> j < length servers
              \<and> declares (?rs ! i) (JStr tool_name) \<and> declares (?rs ! j) (JStr tool_name)
              \<and> (\<forall>l. j < l \<and> l < length servers \<longrightarrow> \<not> declares (?rs ! l) (JStr tool_name))
              \<and> snd (servers ! j) \<noteq> []"
    then show "\<exists>r. trace (snd (execute_tool e self' tool_name tool_input s2))
                    = trace s2 @ [Post (snd (servers ! j) @ ''/execute'')
                        (JObj [(''tool'', JStr tool_name), (''arguments'', tool_input)]) r]"
      using route2[of j tool_name tool_input s2] by simp
  qed
qed

theorem last_write_wins_witness:
  "tools_cache MCPClient_init = None
   \<and> fetch_replies dup_env servers2 start = [ok_json calc_tools, ok_json calc_tools]
   \<and> declares (ok_json calc_tools) (JStr ''calc'')
   \<and> contribution (ok_json calc_tools)
       = [\<lparr>name = JStr ''calc'', description = JStr ''Calculator'', inputSchema = default_schema\<rparr>]
   \<and> tool_to_server (fst (snd (fetch_all_tools dup_env servers2 (MCPClient_init, start))))
        (JStr ''calc'') = Some ''http://calc''
   \<and> \<not> distinct (map name (fst (fetch_all_tools dup_env servers2 (MCPClient_init, start))))
   \<and> (\<exists>r. trace (snd (execute_tool dup_env
                (fst (snd (fetch_all_tools dup_env servers2 (MCPClient_init, start))))
                ''calc'' JNull start))
          = trace start @ [Post ''http://calc/execute''
                              (JObj [(''tool'', JStr ''calc''), (''arguments'', JNull)]) r])"
proof -
  let ?calc = "JObj [(''name'', JStr ''calc''), (''description'', JStr ''Calculator'')]"
  let ?tool = "\<lparr>name = JStr ''calc'', description = JStr ''Calculator'', inputSchema = default_schema\<rparr>"
  let ?resp = "\<lparr>status_code = 200, body_text = dumps calc_tools, body_json = Inr calc_tools\<rparr>"
  let ?rs = "fetch_replies dup_env servers2 start"
  have h: "tools_cache MCPClient_init = None"
    by (simp add: MCPClient_init_def)
  obtain tools self' s' where f: "fetch_all_tools dup_env servers2 (MCPClient_init, start) = (tools, self', s')"
    by (cases "fetch_all_tools dup_env servers2 (MCPClient_init, start)")
  note w = last_write_wins[OF h f]
  have r: "?rs = [ok_json calc_tools, ok_json calc_tools]"
    by code_simp
  have sv: "servers2 ! Suc 0 = (''calculator'', ''http://calc'')" "length servers2 = Suc (Suc 0)"
    by (simp_all add: servers2_def MCP_SERVERS_def)
  have p: "status_code ?resp = 200 \<and> body_json ?resp = Inr (JObj [(''tools'', JArr [?calc])])
           \<and> dict_get [(''tools'', JArr [?calc])] ''tools'' (JArr []) = JArr [?calc]
           \<and> list_all entry_ok [?calc]"
    by (simp add: calc_tools_def dict_get_def entry_ok_def entry_name_def)
  from w have wf: "status_code ?resp = 200 \<and> body_json ?resp = Inr (JObj [(''tools'', JArr [?calc])])
           \<and> dict_get [(''tools'', JArr [?calc])] ''tools'' (JArr []) = JArr [?calc]
           \<and> list_all entry_ok [?calc]
           \<longrightarrow> declares (Inr ?resp) (JStr ''calc'') = (JStr ''calc'' \<in> set (map entry_key [?calc]))
             \<and> contribution (Inr ?resp) = map bedrock_format [?calc]"
    by (elim conjE allE) assumption
  with p have dc: "declares (Inr ?resp) (JStr ''calc'') = (JStr ''calc'' \<in> set (map entry_key [?calc]))"
    "contribution (Inr ?resp) = map bedrock_format [?calc]"
    by simp_all
  have d: "declares (ok_json calc_tools) (JStr ''calc'')"
    using dc(1) by (simp add: ok_json_def entry_key_def entry_field_def dict_get_def)
  have c: "contribution (ok_json calc_tools) = [?tool]"
    using dc(2) by (simp add: ok_json_def bedrock_format_def entry_field_def dict_get_def)
  from w have "0 < Suc 0 \<and> Suc 0 < length servers2
        \<and> declares (?rs ! 0) (JStr ''calc'')
        \<and> declares (?rs ! Suc 0) (JStr ''calc'')
        \<and> (\<forall>l. Suc 0 < l \<and> l < length servers2 \<longrightarrow> \<not> declares (?rs ! l) (JStr ''calc''))
        \<longrightarrow> tool_to_server self' (JStr ''calc'') = Some (snd (servers2 ! Suc 0))"
    by (elim conjE allE) assumption
  then have m: "tool_to_server self' (JStr ''calc'') = Some ''http://calc''"
    using d by (simp add: r sv)
  from w have "0 < Suc 0 \<and> Suc 0 < length servers2
        \<and> ?tool \<in> set (contribution (?rs ! 0))
        \<and> ?tool \<in> set (contribution (?rs ! Suc 0))
        \<and> name ?tool = name ?tool
        \<longrightarrow> \<not> distinct (map name tools)"
    by (elim conjE allE) assumption
  then have nd: "\<not> distinct (map name tools)"
    using c by (simp add: r sv)
  from w have "0 < Suc 0 \<and> Suc 0 < length servers2
        \<and> declares (?rs ! 0) (JStr ''calc'')
        \<and> declares (?rs ! Suc 0) (JStr ''calc'')
        \<and> (\<forall>l. Suc 0 < l \<and> l < length servers2 \<longrightarrow> \<not> declares (?rs ! l) (JStr ''calc''))
        \<and> snd (servers2 ! Suc 0) \<noteq> []
        \<longrightarrow> (\<exists>r. trace (snd (execute_tool dup_env self' ''calc'' JNull start))
                    = trace start @ [Post (snd (servers2 ! Suc 0) @ ''/execute'')
                        (JObj [(''tool'', JStr ''calc''), (''arguments'', JNull)]) r])"
    by (elim conjE allE) assumption
  then have po: "\<exists>r. trace (snd (execute_tool dup_env self' ''calc'' JNull start))
          = trace start @ [Post ''http://calc/execute''
                              (JObj [(''tool'', JStr ''calc''), (''arguments'', JNull)]) r]"
    using d by (simp add: r sv)
  show ?thesis using h r d c m nd po f by simp
qed

subsection \<open>One turn of the conversation\<close>

lemma extract_text_closed: "extract_text cs text_content = text_content @ concat (map block_text cs)"
  by (induction cs text_content rule: extract_text.induct) simp_all

lemma replies_append [simp]: "replies (xs @ ys) = replies xs @ replies ys"
  by (simp add: replies_def)

lemma replies_simps [simp]:
  "replies [] = []"
  "replies (Get url r # evs) = replies evs"
  "replies (Post url body r # evs) = replies evs"
  "replies (Converse modelId msgs cfg c # evs) = c # replies evs"
  by (simp_all add: replies_def)

lemma execute_tool_trace:
  "execute_tool e self tool_name tool_input s = (result, s') \<Longrightarrow>
     replies (trace s') = replies (trace s) \<and> filter is_get (trace s') = filter is_get (trace s)"
  by (auto simp: execute_tool_def client_post_def
           split: prod.splits sum.splits json.splits option.splits if_splits)

lemma run_tools_closed:
  "run_tools e self cs log tool_results s = (log', tool_results', s') \<Longrightarrow>
     log' = log @ map (\<lambda>(n, a, u). \<lparr>tool = n, input = a, tool_use_id = u\<rparr>) (tool_uses cs)
   \<and> map result_id tool_results' = map result_id tool_results @ map (\<lambda>(n, a, u). Some u) (tool_uses cs)
   \<and> replies (trace s') = replies (trace s)
   \<and> filter is_get (trace s') = filter is_get (trace s)"
proof (induction e self cs log tool_results s arbitrary: log' tool_results' s' rule: run_tools.induct)
  case (1 e self log tool_results s)
  then show ?case by simp
next
  case (2 e self tool_name tool_input use_id rest log tool_results s)
  obtain result s1 where x: "execute_tool e self tool_name tool_input s = (result, s1)"
    by (cases "execute_tool e self tool_name tool_input s")
  from "2.prems" x
  have r: "run_tools e self rest (log @ [\<lparr>tool = tool_name, input = tool_input, tool_use_id = use_id\<rparr>])
             (tool_results @ [ToolResult use_id result]) s1 = (log', tool_results', s')"
    by (simp add: Let_def)
  from "2.IH"[OF refl x[symmetric] r] execute_tool_trace[OF x]
  show ?case by simp
qed simp_all

lemma history_extends: "\<exists>rest. history (agent_loop e self modelId tools max_turns st) = messages st @ rest"
proof (induction e self modelId tools max_turns st rule: agent_loop.induct)
  case (1 e self modelId tools max_turns st)
  show ?case
  proof (cases "cur_turns st < max_turns")
    case False
    then show ?thesis by (subst agent_loop.simps) (simp add: finish_def)
  next
    case True
    show ?thesis
    proof (cases "turn e self modelId tools st")
      case (Inl res)
      then have "\<exists>rest. history res = messages st @ rest"
        by (auto simp: turn_def finish_def Let_def split: prod.splits converse_result.splits if_splits)
      with True Inl show ?thesis by (subst agent_loop.simps) simp
    next
      case (Inr st')
      then have "\<exists>rest. messages st' = messages st @ rest"
        by (auto simp: turn_def finish_def Let_def split: prod.splits converse_result.splits if_splits)
      moreover from "1.IH"[OF True Inr]
      have "\<exists>rest. history (agent_loop e self modelId tools max_turns st') = messages st' @ rest" .
      ultimately show ?thesis using True Inr by (subst agent_loop.simps) auto
    qed
  qed
qed

text \<open>
  C8. When the backend replies with the stop reason \<^verbatim>\<open>end_turn\<close> in a turn the loop
  runs, \<^verbatim>\<open>run\<close> returns at once: the response is the concatenation, in order, of
  the text blocks of the assistant message (other blocks add nothing), with the turn
  count including this turn and the tool-call log as it stands; the assistant message
  is the last entry of the history.
\<close>

theorem end_turn_completes:
  assumes "cur_turns st < max_turns"
    and "bedrock_converse e modelId (messages st) (toolConfig tools) (io st)
           = (Response (Some ''end_turn'') output_message, s')"
  shows "agent_loop e self modelId tools max_turns st =
           \<lparr>answer = \<lparr>response = concat (map block_text (get_content output_message)),
                      turns = cur_turns st + 1,
                      tool_calls = tool_calls_log st\<rparr>,
            outcome = Completed,
            history = messages st @ [output_message],
            final = s'\<rparr>"
  using assms
  by (subst agent_loop.simps) (simp add: turn_def finish_def extract_text_closed)

theorem end_turn_completes_witness:
  "cur_turns (seed ''what is 6*7?'' start) < 10
   \<and> bedrock_converse
        (scripted 0 [] [] [Response (Some ''end_turn'')
           \<lparr>role = ''assistant'', content = Some [Text ''4'', OtherBlock, Text ''2'']\<rparr>])
        ''model'' (messages (seed ''what is 6*7?'' start)) (toolConfig []) (io (seed ''what is 6*7?'' start))
      = (Response (Some ''end_turn'')
           \<lparr>role = ''assistant'', content = Some [Text ''4'', OtherBlock, Text ''2'']\<rparr>,
         \<lparr>world = 1,
          trace = [Converse ''model'' [\<lparr>role = ''user'', content = Some [Text ''what is 6*7?'']\<rparr>] None
                     (Response (Some ''end_turn'')
                        \<lparr>role = ''assistant'', content = Some [Text ''4'', OtherBlock, Text ''2'']\<rparr>)]\<rparr>)
   \<and> agent_loop
        (scripted 0 [] [] [Response (Some ''end_turn'')
           \<lparr>role = ''assistant'', content = Some [Text ''4'', OtherBlock, Text ''2'']\<rparr>])
        MCPClient_init ''model'' [] 10 (seed ''what is 6*7?'' start)
      = \<lparr>answer = \<lparr>response = ''42'', turns = 1, tool_calls = []\<rparr>,
         outcome = Completed,
         history = [\<lparr>role = ''user'', content = Some [Text ''what is 6*7?'']\<rparr>,
                    \<lparr>role = ''assistant'', content = Some [Text ''4'', OtherBlock, Text ''2'']\<rparr>],
         final = \<lparr>world = 1,
          trace = [Converse ''model'' [\<lparr>role = ''user'', content = Some [Text ''what is 6*7?'']\<rparr>] None
                     (Response (Some ''end_turn'')
                        \<lparr>role = ''assistant'', content = Some [Text ''4'', OtherBlock, Text ''2'']\<rparr>)]\<rparr>\<rparr>"
proof -
  have h1: "cur_turns (seed ''what is 6*7?'' start) < 10"
    by (simp add: seed_def)
  have h2: "bedrock_converse
        (scripted 0 [] [] [Response (Some ''end_turn'')
           \<lparr>role = ''assistant'', content = Some [Text ''4'', OtherBlock, Text ''2'']\<rparr>])
        ''model'' (messages (seed ''what is 6*7?'' start)) (toolConfig []) (io (seed ''what is 6*7?'' start))
      = (Response (Some ''end_turn'')
           \<lparr>role = ''assistant'', content = Some [Text ''4'', OtherBlock, Text ''2'']\<rparr>,
         \<lparr>world = 1,
          trace = [Converse ''model'' [\<lparr>role = ''user'', content = Some [Text ''what is 6*7?'']\<rparr>] None
                     (Response (Some ''end_turn'')
                        \<lparr>role = ''assistant'', content = Some [Text ''4'', OtherBlock, Text ''2'']\<rparr>)]\<rparr>)"
    by (simp add: bedrock_converse_def scripted_def seed_def start_def toolConfig_def)
  from end_turn_completes[OF h1 h2, of MCPClient_init] h1 h2
  show ?thesis by (simp add: seed_def get_content_def)
qed

text \<open>
  C7. When the backend call of a turn raises (a \<^verbatim>\<open>ClientError\<close> or any other
  exception), \<^verbatim>\<open>run\<close> returns at once from the \<^verbatim>\<open>except\<close> branch: the response is
  the error message, the turn count includes the failed turn, the tool-call log and the
  history are as they stood. The trace grows by the one failed call and nothing
  else: no retry, no further turn, no tool request.
\<close>

theorem backend_fault_aborts:
  assumes "cur_turns st < max_turns"
    and "converse e modelId (messages st) (toolConfig tools) (world (io st)) = (r, w)"
    and "r = ClientError msg \<or> r = OtherException msg"
  shows "agent_loop e self modelId tools max_turns st =
           \<lparr>answer = \<lparr>response = (if r = ClientError msg then ''Bedrock API error: '' @ msg
                                  else ''Agent error: '' @ msg),
                      turns = cur_turns st + 1,
                      tool_calls = tool_calls_log st\<rparr>,
            outcome = Aborted,
            history = messages st,
            final = \<lparr>world = w,
                     trace = trace (io st) @ [Converse modelId (messages st) (toolConfig tools) r]\<rparr>\<rparr>"
  using assms
  by (subst agent_loop.simps) (auto simp: turn_def finish_def bedrock_converse_def)

theorem backend_fault_aborts_witness:
  "cur_turns (seed ''hello'' start) < 10
   \<and> converse (scripted 0 [] [] [ClientError ''Too many requests''])
        ''model'' (messages (seed ''hello'' start)) (toolConfig []) (world (io (seed ''hello'' start)))
      = (ClientError ''Too many requests'', 1)
   \<and> agent_loop (scripted 0 [] [] [ClientError ''Too many requests''])
        MCPClient_init ''model'' [] 10 (seed ''hello'' start)
      = \<lparr>answer = \<lparr>response = ''Bedrock API error: Too many requests'', turns = 1, tool_calls = []\<rparr>,
         outcome = Aborted,
         history = [\<lparr>role = ''user'', content = Some [Text ''hello'']\<rparr>],
         final = \<lparr>world = 1,
                  trace = [Converse ''model'' [\<lparr>role = ''user'', content = Some [Text ''hello'']\<rparr>] None
                             (ClientError ''Too many requests'')]\<rparr>\<rparr>"
proof -
  have h1: "cur_turns (seed ''hello'' start) < 10"
    by (simp add: seed_def)
  have h2: "converse (scripted 0 [] [] [ClientError ''Too many requests''])
        ''model'' (messages (seed ''hello'' start)) (toolConfig []) (world (io (seed ''hello'' start)))
      = (ClientError ''Too many requests'', 1)"
    by (simp add: scripted_def seed_def start_def)
  have h3: "ClientError ''Too many requests'' = ClientError ''Too many requests''
            \<or> ClientError ''Too many requests'' = OtherException ''Too many requests''"
    by simp
  from backend_fault_aborts[OF h1 h2 h3, of MCPClient_init] h1 h2
  show ?thesis by (simp add: seed_def start_def toolConfig_def)
qed

text \<open>
  C1. When the backend replies with the stop reason \<^verbatim>\<open>tool_use\<close>, the turn does
  not return; it appends the assistant message and then exactly one message of role
  \<^verbatim>\<open>user\<close> to the history. The content of that message is one tool-result block
  for each tool-use block of the assistant message, in the same order and with the same
  \<^verbatim>\<open>toolUseId\<close>; the tool-call log grows by (name, input, id) of those tool-use
  blocks, in that order. The two messages stay in the history that \<^verbatim>\<open>run\<close> ends
  with.
\<close>

theorem tool_use_turn:
  assumes "bedrock_converse e modelId (messages st) (toolConfig tools) (io st)
           = (Response (Some ''tool_use'') output_message, s')"
  shows "\<exists>tool_results s''.
           turn e self modelId tools st =
             Inr \<lparr>messages = messages st @ [output_message, \<lparr>role = ''user'', content = Some tool_results\<rparr>],
                  tool_calls_log = tool_calls_log st
                     @ map (\<lambda>(n, a, u). \<lparr>tool = n, input = a, tool_use_id = u\<rparr>)
                         (tool_uses (get_content output_message)),
                  cur_turns = cur_turns st + 1,
                  io = s''\<rparr>
         \<and> map result_id tool_results
             = map (\<lambda>(n, a, u). Some u) (tool_uses (get_content output_message))
         \<and> (cur_turns st < max_turns \<longrightarrow>
              (\<exists>rest. history (agent_loop e self modelId tools max_turns st)
                 = messages st @ [output_message, \<lparr>role = ''user'', content = Some tool_results\<rparr>] @ rest))"
proof -
  obtain log' tool_results s'' where
    rt: "run_tools e self (get_content output_message) (tool_calls_log st) [] s' = (log', tool_results, s'')"
    by (cases "run_tools e self (get_content output_message) (tool_calls_log st) [] s'") auto
  let ?st' = "\<lparr>messages = messages st @ [output_message, \<lparr>role = ''user'', content = Some tool_results\<rparr>],
                  tool_calls_log = tool_calls_log st
                     @ map (\<lambda>(n, a, u). \<lparr>tool = n, input = a, tool_use_id = u\<rparr>)
                         (tool_uses (get_content output_message)),
                  cur_turns = cur_turns st + 1,
                  io = s''\<rparr>"
  from run_tools_closed[OF rt]
  have l: "log' = tool_calls_log st
                     @ map (\<lambda>(n, a, u). \<lparr>tool = n, input = a, tool_use_id = u\<rparr>)
                         (tool_uses (get_content output_message))"
    and i: "map result_id tool_results
             = map (\<lambda>(n, a, u). Some u) (tool_uses (get_content output_message))"
    by simp_all
  have t: "turn e self modelId tools st = Inr ?st'"
    using assms rt l by (simp add: turn_def)
  have "\<exists>rest. history (agent_loop e self modelId tools max_turns st)
                 = messages st @ [output_message, \<lparr>role = ''user'', content = Some tool_results\<rparr>] @ rest"
    if "cur_turns st < max_turns"
  proof -
    have "agent_loop e self modelId tools max_turns st = agent_loop e self modelId tools max_turns ?st'"
      using that t by (subst agent_loop.simps) simp
    with history_extends[of e self modelId tools max_turns ?st'] show ?thesis by simp
  qed
  with t i show ?thesis by blast
qed

theorem tool_use_turn_witness:
  "bedrock_converse (calc_env [ask ''calc'' ''t1'', say ''42'']) ''model''
      (messages (seed ''what is 6*7?'' (snd (snd (fetched (calc_env []))))))
      (toolConfig (fst (fetched (calc_env []))))
      (io (seed ''what is 6*7?'' (snd (snd (fetched (calc_env []))))))
    = (ask ''calc'' ''t1'',
       snd (bedrock_converse (calc_env [ask ''calc'' ''t1'', say ''42'']) ''model''
              (messages (seed ''what is 6*7?'' (snd (snd (fetched (calc_env []))))))
              (toolConfig (fst (fetched (calc_env []))))
              (io (seed ''what is 6*7?'' (snd (snd (fetched (calc_env []))))))))
   \<and> (\<exists>tool_results s''.
         turn (calc_env [ask ''calc'' ''t1'', say ''42'']) (fst (snd (fetched (calc_env [])))) ''model''
           (fst (fetched (calc_env []))) (seed ''what is 6*7?'' (snd (snd (fetched (calc_env [])))))
         = Inr \<lparr>messages =
                  [\<lparr>role = ''user'', content = Some [Text ''what is 6*7?'']\<rparr>,
                   \<lparr>role = ''assistant'',
                    content = Some [Text ''Let me check.'',
                                    ToolUse ''calc'' (JObj [(''a'', JNum 6), (''b'', JNum 7)]) ''t1'']\<rparr>,
                   \<lparr>role = ''user'', content = Some tool_results\<rparr>],
                tool_calls_log =
                  [\<lparr>tool = ''calc'', input = JObj [(''a'', JNum 6), (''b'', JNum 7)],
                    tool_use_id = ''t1''\<rparr>],
                cur_turns = 1,
                io = s''\<rparr>
         \<and> map result_id tool_results = [Some ''t1''])"
proof -
  let ?e = "calc_env [ask ''calc'' ''t1'', say ''42'']"
  let ?st = "seed ''what is 6*7?'' (snd (snd (fetched (calc_env []))))"
  let ?m = "\<lparr>role = ''assistant'',
             content = Some [Text ''Let me check.'',
                             ToolUse ''calc'' (JObj [(''a'', JNum 6), (''b'', JNum 7)]) ''t1'']\<rparr>"
  have a: "ask ''calc'' ''t1'' = Response (Some ''tool_use'') ?m"
    by (simp add: ask_def)
  have "fst (bedrock_converse ?e ''model'' (messages ?st) (toolConfig (fst (fetched (calc_env []))))
          (io ?st)) = ask ''calc'' ''t1''"
    by code_simp
  then have h: "bedrock_converse ?e ''model'' (messages ?st) (toolConfig (fst (fetched (calc_env []))))
          (io ?st)
     = (Response (Some ''tool_use'') ?m,
        snd (bedrock_converse ?e ''model'' (messages ?st) (toolConfig (fst (fetched (calc_env []))))
          (io ?st)))"
    by (simp add: a prod_eq_iff)
  from tool_use_turn[OF h, of "fst (snd (fetched (calc_env [])))" 10]
  show ?thesis
    using h by (auto simp: a seed_def get_content_def)
qed

subsection \<open>Dispatch of an unknown tool\<close>

lemma not_found_text:
  \<open>not_found tool_name = ''{"error": "Tool '' @ concat (map escape_char tool_name) @ '' not found"}''\<close>
  by (simp add: not_found_def dumps_str_def escape_char_def)

lemma run_tools_results_mono:
  "run_tools e self cs log tool_results s = (log', tool_results', s') \<Longrightarrow>
     set tool_results \<subseteq> set tool_results'"
proof (induction e self cs log tool_results s arbitrary: log' tool_results' s' rule: run_tools.induct)
  case (1 e self log tool_results s)
  then show ?case by simp
next
  case (2 e self tool_name tool_input use_id rest log tool_results s)
  obtain result s1 where x: "execute_tool e self tool_name tool_input s = (result, s1)"
    by (cases "execute_tool e self tool_name tool_input s")
  from "2.prems" x
  have r: "run_tools e self rest (log @ [\<lparr>tool = tool_name, input = tool_input, tool_use_id = use_id\<rparr>])
             (tool_results @ [ToolResult use_id result]) s1 = (log', tool_results', s')"
    by (simp add: Let_def)
  from "2.IH"[OF refl x[symmetric] r] show ?case by simp
qed simp_all

lemma run_tools_unknown:
  "tool_to_server self (JStr tool_name) = None \<Longrightarrow>
     ToolUse tool_name tool_input use_id \<in> set cs \<Longrightarrow>
     run_tools e self cs log tool_results s = (log', tool_results', s') \<Longrightarrow>
     ToolResult use_id (not_found tool_name) \<in> set tool_results'"
proof (induction e self cs log tool_results s arbitrary: log' tool_results' s' rule: run_tools.induct)
  case (1 e self log tool_results s)
  then show ?case by simp
next
  case (2 e self n a u rest log tool_results s)
  obtain result s1 where x: "execute_tool e self n a s = (result, s1)"
    by (cases "execute_tool e self n a s")
  from "2.prems"(3) x
  have r: "run_tools e self rest (log @ [\<lparr>tool = n, input = a, tool_use_id = u\<rparr>])
             (tool_results @ [ToolResult u result]) s1 = (log', tool_results', s')"
    by (simp add: Let_def)
  show ?case
  proof (cases "ToolUse tool_name tool_input use_id = ToolUse n a u")
    case True
    with x "2.prems"(1) have "result = not_found tool_name"
      by (simp add: execute_tool_def)
    with True run_tools_results_mono[OF r] show ?thesis by auto
  next
    case False
    with "2.prems"(2) have "ToolUse tool_name tool_input use_id \<in> set rest" by auto
    from "2.IH"[OF refl x[symmetric] "2.prems"(1) this r] show ?thesis .
  qed
qed simp_all

text \<open>
  C5 as it is stated fails on the text of the payload: the message names the tool.
\<close>

theorem tool_not_found_counterexample:
  \<open>fst (execute_tool (calc_env []) MCPClient_init ''calc'' JNull start) \<noteq> ''{"error": "tool not found"}''\<close>
  by code_simp

text \<open>
  C5, amended. For a tool name that \<^verbatim>\<open>tool_to_server\<close> does not hold,
  \<^verbatim>\<open>execute_tool\<close> returns the text \<^verbatim>\<open>{"error": "Tool <name> not found"}\<close> (the name
  escaped as \<^verbatim>\<open>json.dumps\<close> does) and issues no request. In a turn with the stop
  reason \<^verbatim>\<open>tool_use\<close> that asks for such a tool, the loop does not return: the
  text is the content of the tool-result block with the id of the request, in the
  user message that ends the history of the turn.
\<close>

theorem unknown_tool_is_data:
  assumes "tool_to_server self (JStr tool_name) = None"
  shows \<open>execute_tool e self tool_name tool_input s
           = (''{"error": "Tool '' @ concat (map escape_char tool_name) @ '' not found"}'', s)
       \<and> (\<forall>st output_message s' use_id.
             bedrock_converse e modelId (messages st) (toolConfig tools) (io st)
               = (Response (Some ''tool_use'') output_message, s')
             \<and> ToolUse tool_name tool_input use_id \<in> set (get_content output_message) \<longrightarrow>
             (\<exists>st' tool_results.
                turn e self modelId tools st = Inr st'
              \<and> last (messages st') = \<lparr>role = ''user'', content = Some tool_results\<rparr>
              \<and> ToolResult use_id
                   (''{"error": "Tool '' @ concat (map escape_char tool_name) @ '' not found"}'')
                   \<in> set tool_results))\<close>
proof -
  have x: "execute_tool e self tool_name tool_input s = (not_found tool_name, s)"
    using assms by (simp add: execute_tool_def)
  have "\<exists>st' tool_results.
                turn e self modelId tools st = Inr st'
              \<and> last (messages st') = \<lparr>role = ''user'', content = Some tool_results\<rparr>
              \<and> ToolResult use_id (not_found tool_name) \<in> set tool_results"
    if c: "bedrock_converse e modelId (messages st) (toolConfig tools) (io st)
               = (Response (Some ''tool_use'') output_message, s')"
      and u: "ToolUse tool_name tool_input use_id \<in> set (get_content output_message)"
    for st output_message s' use_id
  proof -
    obtain log' tool_results s'' where
      rt: "run_tools e self (get_content output_message) (tool_calls_log st) [] s' = (log', tool_results, s'')"
      by (cases "run_tools e self (get_content output_message) (tool_calls_log st) [] s'") auto
    from run_tools_unknown[OF assms u rt]
    have "ToolResult use_id (not_found tool_name) \<in> set tool_results" .
    moreover have "turn e self modelId tools st =
        Inr \<lparr>messages = messages st @ [output_message, \<lparr>role = ''user'', content = Some tool_results\<rparr>],
             tool_calls_log = log', cur_turns = cur_turns st + 1, io = s''\<rparr>"
      using c rt by (simp add: turn_def)
    ultimately show ?thesis by simp
  qed
  with x show ?thesis unfolding not_found_text by blast
qed

theorem unknown_tool_is_data_witness:
  \<open>tool_to_server (fst (snd (fetched (calc_env [])))) (JStr ''nope'') = None
   \<and> execute_tool (calc_env [ask ''nope'' ''t9'']) (fst (snd (fetched (calc_env []))))
         ''nope'' (JObj [(''a'', JNum 6), (''b'', JNum 7)]) start
       = (''{"error": "Tool nope not found"}'', start)
   \<and> fst (bedrock_converse (calc_env [ask ''nope'' ''t9'']) ''model''
             (messages (seed ''hello'' start)) (toolConfig []) (io (seed ''hello'' start)))
       = ask ''nope'' ''t9''
   \<and> (\<exists>st' tool_results.
         turn (calc_env [ask ''nope'' ''t9'']) (fst (snd (fetched (calc_env [])))) ''model'' []
           (seed ''hello'' start) = Inr st'
       \<and> last (messages st') = \<lparr>role = ''user'', content = Some tool_results\<rparr>
       \<and> ToolResult ''t9'' ''{"error": "Tool nope not found"}'' \<in> set tool_results)\<close>
proof -
  let ?e = "calc_env [ask ''nope'' ''t9'']"
  let ?args = "JObj [(''a'', JNum 6), (''b'', JNum 7)]"
  let ?m = "\<lparr>role = ''assistant'',
             content = Some [Text ''Let me check.'', ToolUse ''nope'' ?args ''t9'']\<rparr>"
  have h: "tool_to_server (fst (snd (fetched (calc_env [])))) (JStr ''nope'') = None"
    by code_simp
  have esc: "concat (map escape_char ''nope'') = ''nope''"
    by (simp add: escape_char_def)
  have c: "fst (bedrock_converse ?e ''model'' (messages (seed ''hello'' start)) (toolConfig [])
                  (io (seed ''hello'' start))) = ask ''nope'' ''t9''"
    by code_simp
  then have c': "bedrock_converse ?e ''model'' (messages (seed ''hello'' start)) (toolConfig [])
                  (io (seed ''hello'' start))
       = (Response (Some ''tool_use'') ?m,
          snd (bedrock_converse ?e ''model'' (messages (seed ''hello'' start)) (toolConfig [])
                  (io (seed ''hello'' start))))"
    by (simp add: ask_def prod_eq_iff)
  have u: "ToolUse ''nope'' ?args ''t9'' \<in> set (get_content ?m)"
    by (simp add: get_content_def)
  note w = unknown_tool_is_data[OF h, of ?e ?args start "''model''" "[]"]
  from w have x: \<open>execute_tool ?e (fst (snd (fetched (calc_env [])))) ''nope'' ?args start
       = (''{"error": "Tool '' @ concat (map escape_char ''nope'') @ '' not found"}'', start)\<close>
    by (rule conjunct1)
  from w c' u
  have \<open>\<exists>st' tool_results.
         turn ?e (fst (snd (fetched (calc_env [])))) ''model'' [] (seed ''hello'' start) = Inr st'
       \<and> last (messages st') = \<lparr>role = ''user'', content = Some tool_results\<rparr>
       \<and> ToolResult ''t9'' (''{"error": "Tool '' @ concat (map escape_char ''nope'') @ '' not found"}'')
            \<in> set tool_results\<close>
    by blast
  with x h c show ?thesis unfolding esc by simp
qed

subsection \<open>The bound on the number of turns\<close>

text \<open>
  C10. With \<^verbatim>\<open>max_turns\<close> at most 0 the body of the loop never runs: after the
  catalog fetch, \<^verbatim>\<open>run\<close> returns "Max turns reached" with 0 turns and an empty
  tool-call log. The outside world and the trace are those the fetch left: there is no
  backend call and no tool request.
\<close>

theorem no_turns:
  assumes "max_turns \<le> 0"
  shows "run e servers modelId user_message max_turns cs =
           (fst (snd (fetch_all_tools e servers cs)),
            \<lparr>answer = \<lparr>response = ''Max turns reached'', turns = 0, tool_calls = []\<rparr>,
             outcome = Exhausted,
             history = [\<lparr>role = ''user'', content = Some [Text user_message]\<rparr>],
             final = snd (snd (fetch_all_tools e servers cs))\<rparr>)"
  using assms
  by (cases "fetch_all_tools e servers cs")
     (simp add: run_def Let_def finish_def agent_loop.simps[of _ _ _ _ max_turns])

theorem no_turns_witness:
  "(-1::int) \<le> 0
   \<and> snd (run (calc_env [say ''42'']) servers2 ''model'' ''what is 6*7?'' (-1) (MCPClient_init, start))
      = \<lparr>answer = \<lparr>response = ''Max turns reached'', turns = 0, tool_calls = []\<rparr>,
         outcome = Exhausted,
         history = [\<lparr>role = ''user'', content = Some [Text ''what is 6*7?'']\<rparr>],
         final = \<lparr>world = 2,
                  trace = [Get ''http://fs/tools'' (ok_json fs_tools),
                           Get ''http://calc/tools'' (ok_json calc_tools)]\<rparr>\<rparr>"
proof -
  have h: "(-1::int) \<le> 0" by simp
  have f: "snd (snd (fetch_all_tools (calc_env [say ''42'']) servers2 (MCPClient_init, start)))
           = \<lparr>world = 2,
                  trace = [Get ''http://fs/tools'' (ok_json fs_tools),
                           Get ''http://calc/tools'' (ok_json calc_tools)]\<rparr>"
    by code_simp
  from no_turns[OF h, of "calc_env [say ''42'']" servers2 "''model''" "''what is 6*7?''" "(MCPClient_init, start)"]
  show ?thesis using f by simp
qed



lemma replies_get_events [simp]: "replies (get_events servers rs) = []"
  by (simp add: replies_def get_events_def)




subsection \<open>The cache of the tool catalog\<close>

text \<open>
  C4. A second call to \<^verbatim>\<open>fetch_all_tools\<close>, made in the state the first call left,
  returns the same catalog as the first and leaves the client, the outside world and
  the trace of requests as they were: it issues no request.
\<close>

theorem fetch_all_tools_twice:
  "(let first = fetch_all_tools e servers cs;
        second = fetch_all_tools e servers (snd first)
    in fst second = fst first
     \<and> snd second = snd first
     \<and> trace (snd (snd second)) = trace (snd (snd first)))"
  by (cases cs) (auto simp: fetch_all_tools_def Let_def split: option.splits prod.splits)

theorem fetch_all_tools_twice_witness:
  "map name (fst (fetched (calc_env []))) = [JStr ''read_file'', JStr ''calc'']
   \<and> fetch_all_tools (calc_env []) servers2 (snd (fetched (calc_env []))) = fetched (calc_env [])
   \<and> trace (snd (snd (fetch_all_tools (calc_env []) servers2 (snd (fetched (calc_env []))))))
       = [Get ''http://fs/tools'' (ok_json fs_tools), Get ''http://calc/tools'' (ok_json calc_tools)]"
proof -
  have n: "map name (fst (fetched (calc_env []))) = [JStr ''read_file'', JStr ''calc'']"
    by code_simp
  have t: "trace (snd (snd (fetched (calc_env []))))
       = [Get ''http://fs/tools'' (ok_json fs_tools), Get ''http://calc/tools'' (ok_json calc_tools)]"
    by code_simp
  from fetch_all_tools_twice[of "calc_env []" servers2 "(MCPClient_init, start)"]
  show ?thesis using n t by (simp add: Let_def fetched_def prod_eq_iff)
qed

subsection \<open>The cache when calls overlap\<close>

text \<open>
  A call that is made with the cache empty and resumed until it returns, with no
  other step in between, does what the function \<open>fetch_all_tools\<close> does.
\<close>

lemma resumes_alone:
  "i < length (calls p) \<Longrightarrow> calls p ! i = Fetch_loop svs at \<Longrightarrow>
   fetch_servers e svs at (tool_to_server (mcp_client p)) (outside p) = (at', t2s', s') \<Longrightarrow>
   steps e servers (replicate (Suc (length svs)) (Resume i)) p =
     \<lparr>mcp_client = \<lparr>tools_cache = Some at', tool_to_server = t2s'\<rparr>,
      outside = s', calls = (calls p)[i := Fetch_done at']\<rparr>"
proof (induction svs arbitrary: p at)
  case Nil
  then show ?case by simp
next
  case (Cons sv svs)
  obtain server_name server_url where sv: "sv = (server_name, server_url)"
    by (cases sv)
  obtain r s1 where g: "client_get e (server_url @ ''/tools'') (outside p) = (r, s1)"
    by (cases "client_get e (server_url @ ''/tools'') (outside p)")
  obtain ok at1 t2s1 where rt: "read_tools server_url r at (tool_to_server (mcp_client p)) = (ok, at1, t2s1)"
    by (cases "read_tools server_url r at (tool_to_server (mcp_client p))")
  let ?p1 = "\<lparr>mcp_client = (mcp_client p)\<lparr>tool_to_server := t2s1\<rparr>, outside = s1,
              calls = (calls p)[i := Fetch_loop svs at1]\<rparr>"
  have one: "step e servers (Resume i) p = ?p1"
    using Cons.prems(1,2) sv g rt by simp
  have rest: "fetch_servers e svs at1 (tool_to_server (mcp_client ?p1)) (outside ?p1) = (at', t2s', s')"
    using Cons.prems(3) sv g rt by simp
  have i1: "i < length (calls ?p1)" "calls ?p1 ! i = Fetch_loop svs at1"
    using Cons.prems(1) by simp_all
  from Cons.IH[OF i1 rest] one show ?case by simp
qed

lemma fetch_all_tools_alone:
  assumes "tools_cache (mcp_client p) = None"
    and "fetch_all_tools e servers (mcp_client p, outside p) = (tools, self', s')"
  shows "steps e servers (Call # replicate (Suc (length servers)) (Resume (length (calls p)))) p =
           \<lparr>mcp_client = self', outside = s', calls = calls p @ [Fetch_done tools]\<rparr>"
proof -
  let ?p1 = "p\<lparr>calls := calls p @ [Fetch_loop servers []]\<rparr>"
  obtain at' t2s' s1 where
    f: "fetch_servers e servers [] (tool_to_server (mcp_client p)) (outside p) = (at', t2s', s1)"
    by (cases "fetch_servers e servers [] (tool_to_server (mcp_client p)) (outside p)")
  with assms have r: "tools = at'" "self' = \<lparr>tools_cache = Some at', tool_to_server = t2s'\<rparr>" "s' = s1"
    by (auto simp: fetch_all_tools_def)
  have c: "step e servers Call p = ?p1"
    using assms(1) by simp
  have "steps e servers (replicate (Suc (length servers)) (Resume (length (calls p)))) ?p1 =
     \<lparr>mcp_client = \<lparr>tools_cache = Some at', tool_to_server = t2s'\<rparr>,
      outside = s1, calls = (calls ?p1)[length (calls p) := Fetch_done at']\<rparr>"
    by (rule resumes_alone) (use f in simp_all)
  with c r show ?thesis by simp
qed

lemma step_settled:
  assumes "tools_cache (mcp_client p) = Some tools" and "list_all returned (calls p)"
  shows "mcp_client (step e servers a p) = mcp_client p
       \<and> filter is_get (trace (outside (step e servers a p))) = filter is_get (trace (outside p))
       \<and> calls (step e servers a p) = calls p @ replicate (count_list [a] Call) (Fetch_done tools)"
proof (cases a)
  case Call
  with assms show ?thesis by simp
next
  case (Resume i)
  show ?thesis
  proof (cases "i < length (calls p)")
    case True
    with assms(2) have "returned (calls p ! i)"
      by (simp add: list_all_length)
    then obtain v where "calls p ! i = Fetch_done v"
      by (cases "calls p ! i") simp_all
    with Resume True show ?thesis by (simp add: list_update_same_conv)
  next
    case False
    with Resume show ?thesis by simp
  qed
next
  case (Other_post url body)
  then show ?thesis
    by (simp add: client_post_def split: prod.splits)
next
  case (Other_converse modelId msgs cfg)
  then show ?thesis
    by (simp add: bedrock_converse_def split: prod.splits)
qed

lemma steps_settled:
  "tools_cache (mcp_client p) = Some tools \<Longrightarrow> list_all returned (calls p) \<Longrightarrow>
     mcp_client (steps e servers acts p) = mcp_client p
   \<and> filter is_get (trace (outside (steps e servers acts p))) = filter is_get (trace (outside p))
   \<and> calls (steps e servers acts p) = calls p @ replicate (count_list acts Call) (Fetch_done tools)"
proof (induction acts arbitrary: p)
  case Nil
  show ?case by simp
next
  case (Cons a acts)
  let ?p1 = "step e servers a p"
  from step_settled[OF Cons.prems, of e servers a]
  have 1: "mcp_client ?p1 = mcp_client p"
    and 2: "filter is_get (trace (outside ?p1)) = filter is_get (trace (outside p))"
    and 3: "calls ?p1 = calls p @ replicate (count_list [a] Call) (Fetch_done tools)"
    by simp_all
  have c: "tools_cache (mcp_client ?p1) = Some tools"
    using 1 Cons.prems(1) by simp
  have r: "list_all returned (calls ?p1)"
    using 3 Cons.prems(2) by (simp add: list_all_iff)
  from Cons.IH[OF c r] 1 2 3 show ?case
    by (simp add: replicate_add[symmetric] del: replicate_add)
qed

text \<open>
  C9 as it is stated fails when two first calls overlap. Both calls are made while
  the cache is empty and both are suspended at their first GET. The first call
  finishes during a total outage and stores the empty list. The second call, still in
  flight, then gets its replies from endpoints that are up again and stores its own
  list over the first one.
\<close>

theorem cache_overwritten_counterexample:
  "calls (steps (outage_env []) servers2 [Call, Call] new_process)
     = [Fetch_loop servers2 [], Fetch_loop servers2 []]
   \<and> tools_cache (mcp_client (steps (outage_env []) servers2
        [Call, Call, Resume 0, Resume 0, Resume 0] new_process)) = Some []
   \<and> map_option (map name) (tools_cache (mcp_client (steps (outage_env []) servers2
        [Call, Call, Resume 0, Resume 0, Resume 0, Resume 1, Resume 1, Resume 1] new_process)))
     = Some [JStr ''read_file'', JStr ''calc'']"
  by code_simp

text \<open>
  C9, amended. Once the cache has been populated and no call of \<^verbatim>\<open>fetch_all_tools\<close>
  is in flight (every call made so far has returned), nothing that happens afterwards
  changes it, even when it is the empty list: whatever calls are made and resumed and
  whatever the rest of the program does, in any order, \<^verbatim>\<open>mcp_client\<close> stays as it
  is, no further GET is sent to a tool server, and every later call of
  \<^verbatim>\<open>fetch_all_tools\<close> has returned that same list at once. A call in flight that
  has asked its last server stores its own list in the cache when it is resumed,
  whatever the cache holds.
\<close>

theorem cache_settled:
  assumes "tools_cache (mcp_client p) = Some tools" and "list_all returned (calls p)"
  shows "mcp_client (steps e servers acts p) = mcp_client p
       \<and> tools_cache (mcp_client (steps e servers acts p)) = Some tools
       \<and> filter is_get (trace (outside (steps e servers acts p))) = filter is_get (trace (outside p))
       \<and> calls (steps e servers acts p) = calls p @ replicate (count_list acts Call) (Fetch_done tools)
       \<and> fetch_all_tools e servers (mcp_client (steps e servers acts p), outside (steps e servers acts p))
           = (tools, mcp_client p, outside (steps e servers acts p))
       \<and> (\<forall>q i all_tools. i < length (calls q) \<and> calls q ! i = Fetch_loop [] all_tools \<longrightarrow>
             tools_cache (mcp_client (step e servers (Resume i) q)) = Some all_tools)"
proof -
  have store: "\<forall>q i all_tools. i < length (calls q) \<and> calls q ! i = Fetch_loop [] all_tools \<longrightarrow>
             tools_cache (mcp_client (step e servers (Resume i) q)) = Some all_tools"
    by simp
  note s = steps_settled[OF assms, of e servers acts]
  then have "tools_cache (mcp_client (steps e servers acts p)) = Some tools"
    using assms(1) by simp
  moreover from this s
  have "fetch_all_tools e servers (mcp_client (steps e servers acts p), outside (steps e servers acts p))
           = (tools, mcp_client p, outside (steps e servers acts p))"
    by (simp add: fetch_all_tools_def)
  ultimately show ?thesis using s store by simp
qed

theorem cache_settled_witness:
  "tools_cache (mcp_client (steps (outage_env []) servers2 [Call, Resume 0, Resume 0, Resume 0] new_process))
     = Some []
   \<and> list_all returned
        (calls (steps (outage_env []) servers2 [Call, Resume 0, Resume 0, Resume 0] new_process))
   \<and> fst (client_get (outage_env []) ''http://calc/tools''
            (outside (steps (outage_env []) servers2 [Call, Resume 0, Resume 0, Resume 0] new_process)))
       = ok_json calc_tools
   \<and> tools_cache (mcp_client (steps (outage_env []) servers2
        [Call, Resume 1, Other_converse ''model'' [] None, Call, Other_post ''http://calc/execute'' JNull,
         Resume 2, Resume 0]
        (steps (outage_env []) servers2 [Call, Resume 0, Resume 0, Resume 0] new_process)))
       = Some []
   \<and> calls (steps (outage_env []) servers2
        [Call, Resume 1, Other_converse ''model'' [] None, Call, Other_post ''http://calc/execute'' JNull,
         Resume 2, Resume 0]
        (steps (outage_env []) servers2 [Call, Resume 0, Resume 0, Resume 0] new_process))
       = [Fetch_done [], Fetch_done [], Fetch_done []]
   \<and> filter is_get (trace (outside (steps (outage_env []) servers2
        [Call, Resume 1, Other_converse ''model'' [] None, Call, Other_post ''http://calc/execute'' JNull,
         Resume 2, Resume 0]
        (steps (outage_env []) servers2 [Call, Resume 0, Resume 0, Resume 0] new_process))))
       = [Get ''http://fs/tools'' (Inl ''connection refused''),
          Get ''http://calc/tools'' (Inl ''connection refused'')]
   \<and> calls (steps (outage_env []) servers2 [Call, Call, Resume 0, Resume 0, Resume 0, Resume 1, Resume 1]
               new_process) ! 1
       = Fetch_loop []
           [\<lparr>name = JStr ''read_file'', description = JStr [], inputSchema = default_schema\<rparr>,
            \<lparr>name = JStr ''calc'', description = JStr ''Calculator'', inputSchema = default_schema\<rparr>]
   \<and> tools_cache (mcp_client (step (outage_env []) servers2 (Resume 1)
        (steps (outage_env []) servers2 [Call, Call, Resume 0, Resume 0, Resume 0, Resume 1, Resume 1]
               new_process)))
       = Some [\<lparr>name = JStr ''read_file'', description = JStr [], inputSchema = default_schema\<rparr>,
               \<lparr>name = JStr ''calc'', description = JStr ''Calculator'', inputSchema = default_schema\<rparr>]"
proof -
  let ?e = "outage_env []"
  let ?p = "steps ?e servers2 [Call, Resume 0, Resume 0, Resume 0] new_process"
  let ?q = "steps ?e servers2 [Call, Call, Resume 0, Resume 0, Resume 0, Resume 1, Resume 1] new_process"
  let ?two = "[\<lparr>name = JStr ''read_file'', description = JStr [], inputSchema = default_schema\<rparr>,
               \<lparr>name = JStr ''calc'', description = JStr ''Calculator'', inputSchema = default_schema\<rparr>]"
  have q1: "calls ?q ! 1 = Fetch_loop [] ?two" by code_simp
  have q2: "1 < length (calls ?q)" by code_simp
  let ?acts = "[Call, Resume 1, Other_converse ''model'' [] None, Call,
                Other_post ''http://calc/execute'' JNull, Resume 2, Resume 0]"
  have h1: "tools_cache (mcp_client ?p) = Some []" by code_simp
  have h2: "list_all returned (calls ?p)" by code_simp
  have c: "calls ?p = [Fetch_done []]" by code_simp
  have g: "filter is_get (trace (outside ?p))
       = [Get ''http://fs/tools'' (Inl ''connection refused''),
          Get ''http://calc/tools'' (Inl ''connection refused'')]"
    by code_simp
  have up: "fst (client_get ?e ''http://calc/tools'' (outside ?p)) = ok_json calc_tools"
    by code_simp
  have n: "count_list ?acts Call = 2" by simp
  note w = cache_settled[OF h1 h2, of ?e servers2 ?acts]
  from w have "1 < length (calls ?q) \<and> calls ?q ! 1 = Fetch_loop [] ?two \<longrightarrow>
             tools_cache (mcp_client (step ?e servers2 (Resume 1) ?q)) = Some ?two"
    by (elim conjE allE) assumption
  with q1 q2 have st: "tools_cache (mcp_client (step ?e servers2 (Resume 1) ?q)) = Some ?two"
    by blast
  from w have a: "tools_cache (mcp_client (steps ?e servers2 ?acts ?p)) = Some []"
    by (elim conjE) assumption
  from w have b: "filter is_get (trace (outside (steps ?e servers2 ?acts ?p)))
                    = filter is_get (trace (outside ?p))"
    by (elim conjE) assumption
  from w have d: "calls (steps ?e servers2 ?acts ?p)
                    = calls ?p @ replicate (count_list ?acts Call) (Fetch_done [])"
    by (elim conjE) assumption
  have d': "calls (steps ?e servers2 ?acts ?p) = [Fetch_done [], Fetch_done [], Fetch_done []]"
    unfolding d c n by (simp add: numeral_2_eq_2)
  have b': "filter is_get (trace (outside (steps ?e servers2 ?acts ?p)))
       = [Get ''http://fs/tools'' (Inl ''connection refused''),
          Get ''http://calc/tools'' (Inl ''connection refused'')]"
    unfolding b g ..
  show ?thesis
    by (intro conjI) (rule h1 h2 up a d' b' q1 st)+
qed

end
